theory Spec2Isabelle
  imports Complex_Main "HOL-Library.Word"
begin

unbundle bit_operations_syntax

section \<open>skvx::Vec: the data model of include/private/SkVx.h\<close>

text \<open>
  \<^verbatim>\<open>template <int N, typename T> struct Vec { Vec<N/2,T> lo, hi; ... };\<close>
  \<^verbatim>\<open>template <typename T>        struct Vec<1,T> { T val; ... };\<close>

  The primary template holds two half-width vectors, the specialisation for one lane
  holds the scalar. The template argument \<open>N\<close> is a parameter of every function of the
  model whose body mentions it. A value of the C++ type \<open>Vec<N,T>\<close> is a value \<open>v\<close> with
  \<open>is_Vec N v\<close>: the primary template at every \<open>N > 1\<close>, the specialisation at \<open>N = 1\<close>,
  and \<open>N\<close> halved at each level. The static assertion \<open>(N & (N-1)) == 0\<close> of the primary
  template holds exactly for the widths that \<open>is_Vec\<close> admits (lemma \<open>is_Vec_pow2\<close>).
\<close>

datatype 'a Vec = Vec1 (val: 'a) | VecN (lo: "'a Vec") (hi: "'a Vec")

fun is_Vec :: "nat \<Rightarrow> 'a Vec \<Rightarrow> bool" where
  "is_Vec N (Vec1 v) = (N = 1)"
| "is_Vec N (VecN l h) = (1 < N \<and> even N \<and> is_Vec (N div 2) l \<and> is_Vec (N div 2) h)"

text \<open>\<^verbatim>\<open>T operator[](int i) const { return i < N/2 ? lo[i] : hi[i-N/2]; }\<close> and, for one
  lane, \<^verbatim>\<open>T operator[](int) const { return val; }\<close>.\<close>

fun op_index :: "nat \<Rightarrow> 'a Vec \<Rightarrow> int \<Rightarrow> 'a" where
  "op_index N (Vec1 v) i = v"
| "op_index N (VecN l h) i =
     (if i < int (N div 2) then op_index (N div 2) l i
      else op_index (N div 2) h (i - int (N div 2)))"

text \<open>\<^verbatim>\<open>join(lo, hi)\<close>: \<^verbatim>\<open>Vec<2*N,T> v; v.lo = lo; v.hi = hi; return v;\<close>\<close>

definition join :: "'a Vec \<Rightarrow> 'a Vec \<Rightarrow> 'a Vec" where
  "join l h = VecN l h"

text \<open>
  The memory image of a vector, "the same as \<open>T vec[N]\<close>": the lanes of \<open>lo\<close>, then the
  lanes of \<open>hi\<close>. \<open>to_vext\<close> is \<^verbatim>\<open>bit_pun<VExt<N,T>>(v)\<close>, a copy of that image into the
  compiler's vector type, modelled as the list of its lanes; \<open>to_vec\<close> is the copy back,
  \<^verbatim>\<open>bit_pun<Vec<N,T>>(v)\<close>. \<open>bit_pun\<close> asserts statically that both sides have the same
  size, so \<open>to_vec N\<close> is only ever applied to a list of \<open>N\<close> lanes.
\<close>

fun to_vext :: "'a Vec \<Rightarrow> 'a list" where
  "to_vext (Vec1 v) = [v]"
| "to_vext (VecN l h) = to_vext l @ to_vext h"

fun to_vec :: "nat \<Rightarrow> 'a list \<Rightarrow> 'a Vec" where
  "to_vec N xs =
     (if N \<le> 1 then Vec1 (hd xs)
      else VecN (to_vec (N div 2) (take (N div 2) xs)) (to_vec (N div 2) (drop (N div 2) xs)))"

declare to_vec.simps [simp del]

text \<open>\<^verbatim>\<open>Vec(U x) : lo(x), hi(x) {}\<close> and \<^verbatim>\<open>Vec(U x) : val(x) {}\<close>: the broadcast
  constructor, taking the scalar already converted to \<open>T\<close>.\<close>

fun splat :: "nat \<Rightarrow> 'a \<Rightarrow> 'a Vec" where
  "splat N x = (if N \<le> 1 then Vec1 x else VecN (splat (N div 2) x) (splat (N div 2) x))"

declare splat.simps [simp del]

text \<open>
  \<^verbatim>\<open>static Vec Load(const void* ptr) { Vec v; memcpy(&v, ptr, sizeof(Vec)); return v; }\<close>

  The memory at \<open>ptr\<close> is the list of the values of type \<open>T\<close> found there. Copying
  \<open>sizeof(Vec)\<close> bytes into the object fills \<open>lo\<close> from the first \<open>N/2\<close> values and \<open>hi\<close>
  from the next \<open>N/2\<close>. \<open>None\<close> is a read past the end of the memory.
\<close>

fun Load :: "nat \<Rightarrow> 'a list \<Rightarrow> 'a Vec option" where
  "Load N p =
     (if N \<le> 1 then (case p of [] \<Rightarrow> None | v # _ \<Rightarrow> Some (Vec1 v))
      else (case Load (N div 2) p of
              None \<Rightarrow> None
            | Some l \<Rightarrow> (case Load (N div 2) (drop (N div 2) p) of
                           None \<Rightarrow> None
                         | Some h \<Rightarrow> Some (VecN l h))))"

declare Load.simps [simp del]

text \<open>
  \<^verbatim>\<open>Vec(std::initializer_list<T> xs) {
      T vals[N] = {0};
      memcpy(vals, xs.begin(), std::min(xs.size(), (size_t)N)*sizeof(T));
      lo = Vec<N/2,T>::Load(vals +   0);
      hi = Vec<N/2,T>::Load(vals + N/2);
  }\<close>
  and, for one lane, \<^verbatim>\<open>Vec(std::initializer_list<T> xs) : val(xs.size() ? *xs.begin() : 0) {}\<close>.
  \<open>memcpy_vals\<close> is the array \<open>vals\<close> after the copy.
\<close>

definition memcpy_vals :: "nat \<Rightarrow> 'a::zero list \<Rightarrow> 'a list" where
  "memcpy_vals N xs =
     (let vals = replicate N 0; n = min (length xs) N in take n xs @ drop n vals)"

definition Vec_init :: "nat \<Rightarrow> 'a::zero list \<Rightarrow> 'a Vec option" where
  "Vec_init N xs =
     (if N \<le> 1 then Some (Vec1 (if length xs \<noteq> 0 then hd xs else 0))
      else (let vals = memcpy_vals N xs in
            case Load (N div 2) vals of
              None \<Rightarrow> None
            | Some l \<Rightarrow> (case Load (N div 2) (drop (N div 2) vals) of
                           None \<Rightarrow> None
                         | Some h \<Rightarrow> Some (VecN l h))))"

section \<open>Build configuration\<close>

text \<open>
  The header chooses between code paths with the preprocessor. A build is modelled by the
  macros the modelled functions test: \<open>SKNX_NO_SIMD\<close>, the compiler (\<open>__clang__\<close>,
  \<open>__GNUC__\<close> without \<open>__clang__\<close>, or neither), \<open>__AVX__\<close>, \<open>__SSE4_1__\<close>,
  \<open>__ARM_NEON\<close>, \<open>__F16C__\<close> and \<open>__aarch64__\<close>.
\<close>

datatype compiler = Clang | GCC | Other_compiler

record build =
  no_simd :: bool
  compiler :: compiler
  avx :: bool
  sse4_1 :: bool
  arm_neon :: bool
  f16c :: bool
  aarch64 :: bool

text \<open>\<^verbatim>\<open>#if !defined(SKNX_NO_SIMD) && (defined(__clang__) || defined(__GNUC__))\<close>\<close>

definition vext_available :: "build \<Rightarrow> bool" where
  "vext_available b = (\<not> no_simd b \<and> (compiler b = Clang \<or> compiler b = GCC))"

text \<open>\<^verbatim>\<open>#if !defined(SKNX_NO_SIMD) && defined(__clang__)\<close>\<close>

definition clang_builtins :: "build \<Rightarrow> bool" where
  "clang_builtins b = (\<not> no_simd b \<and> compiler b = Clang)"

section \<open>The portable operators\<close>

text \<open>
  One scalar overload \<^verbatim>\<open>SIT Vec<1,T> operator+(x, y) { return x.val + y.val; }\<close> and one
  recursive overload \<^verbatim>\<open>SINT Vec<N,T> operator+(x, y) { return join(x.lo + y.lo, x.hi + y.hi); }\<close>
  per operator. The scalar operation is the one of the element type \<open>T\<close>; for an unsigned
  integer type of \<open>w\<close> bits (\<open>'a word\<close>) the result of the promoted operation converted back
  to \<open>T\<close> is the operation modulo \<open>2 ^ w\<close>. Integer division by zero, a shift count that
  is negative or not below the width of the lanes, and signed overflow are undefined in
  C++ on one path or on both. The model has HOL's total operations there; a statement
  that covers such operands says only that both of its sides are the same scalar
  operation on the same lanes.
\<close>

fun op_add_portable :: "'a::plus Vec \<Rightarrow> 'a Vec \<Rightarrow> 'a Vec" where
  "op_add_portable (Vec1 x) (Vec1 y) = Vec1 (x + y)"
| "op_add_portable (VecN xl xh) (VecN yl yh) = join (op_add_portable xl yl) (op_add_portable xh yh)"

fun op_sub_portable :: "'a::minus Vec \<Rightarrow> 'a Vec \<Rightarrow> 'a Vec" where
  "op_sub_portable (Vec1 x) (Vec1 y) = Vec1 (x - y)"
| "op_sub_portable (VecN xl xh) (VecN yl yh) = join (op_sub_portable xl yl) (op_sub_portable xh yh)"

fun op_mul_portable :: "'a::times Vec \<Rightarrow> 'a Vec \<Rightarrow> 'a Vec" where
  "op_mul_portable (Vec1 x) (Vec1 y) = Vec1 (x * y)"
| "op_mul_portable (VecN xl xh) (VecN yl yh) = join (op_mul_portable xl yl) (op_mul_portable xh yh)"

fun op_div_portable :: "'a::divide Vec \<Rightarrow> 'a Vec \<Rightarrow> 'a Vec" where
  "op_div_portable (Vec1 x) (Vec1 y) = Vec1 (x div y)"
| "op_div_portable (VecN xl xh) (VecN yl yh) = join (op_div_portable xl yl) (op_div_portable xh yh)"

fun op_xor_portable :: "'a::semiring_bit_operations Vec \<Rightarrow> 'a Vec \<Rightarrow> 'a Vec" where
  "op_xor_portable (Vec1 x) (Vec1 y) = Vec1 (x XOR y)"
| "op_xor_portable (VecN xl xh) (VecN yl yh) = join (op_xor_portable xl yl) (op_xor_portable xh yh)"

fun op_and_portable :: "'a::semiring_bit_operations Vec \<Rightarrow> 'a Vec \<Rightarrow> 'a Vec" where
  "op_and_portable (Vec1 x) (Vec1 y) = Vec1 (x AND y)"
| "op_and_portable (VecN xl xh) (VecN yl yh) = join (op_and_portable xl yl) (op_and_portable xh yh)"

fun op_or_portable :: "'a::semiring_bit_operations Vec \<Rightarrow> 'a Vec \<Rightarrow> 'a Vec" where
  "op_or_portable (Vec1 x) (Vec1 y) = Vec1 (x OR y)"
| "op_or_portable (VecN xl xh) (VecN yl yh) = join (op_or_portable xl yl) (op_or_portable xh yh)"

text \<open>\<^verbatim>\<open>operator!\<close> returns \<^verbatim>\<open>!x.val\<close>, a \<open>bool\<close>, which the constructor converts to \<open>T\<close>:
  1 for a zero lane, 0 for any other.\<close>

fun op_lnot_portable :: "'a::zero_neq_one Vec \<Rightarrow> 'a Vec" where
  "op_lnot_portable (Vec1 x) = Vec1 (of_bool (x = 0))"
| "op_lnot_portable (VecN xl xh) = join (op_lnot_portable xl) (op_lnot_portable xh)"

fun op_neg_portable :: "'a::uminus Vec \<Rightarrow> 'a Vec" where
  "op_neg_portable (Vec1 x) = Vec1 (- x)"
| "op_neg_portable (VecN xl xh) = join (op_neg_portable xl) (op_neg_portable xh)"

fun op_bnot_portable :: "'a::ring_bit_operations Vec \<Rightarrow> 'a Vec" where
  "op_bnot_portable (Vec1 x) = Vec1 (NOT x)"
| "op_bnot_portable (VecN xl xh) = join (op_bnot_portable xl) (op_bnot_portable xh)"

text \<open>The shifts take the count as an \<open>int\<close>; \<open>>>\<close> on an unsigned \<open>T\<close> shifts zeros in.\<close>

fun op_shl_portable :: "'a::semiring_bit_operations Vec \<Rightarrow> int \<Rightarrow> 'a Vec" where
  "op_shl_portable (Vec1 x) bits = Vec1 (push_bit (nat bits) x)"
| "op_shl_portable (VecN xl xh) bits = join (op_shl_portable xl bits) (op_shl_portable xh bits)"

fun op_shr_portable :: "'a::semiring_bit_operations Vec \<Rightarrow> int \<Rightarrow> 'a Vec" where
  "op_shr_portable (Vec1 x) bits = Vec1 (drop_bit (nat bits) x)"
| "op_shr_portable (VecN xl xh) bits = join (op_shr_portable xl bits) (op_shr_portable xh bits)"

text \<open>
  The comparisons return \<^verbatim>\<open>x.val == y.val ? ~0 : 0\<close>, an \<open>int\<close>, which the constructor of
  \<^verbatim>\<open>Vec<1,M<T>>\<close> converts to the mask type \<open>M<T>\<close>, an integer type of some width
  (\<open>'m word\<close>): \<open>int32_t\<close> for \<open>float\<close>, \<open>int64_t\<close> for \<open>double\<close>, \<open>T\<close> otherwise.
\<close>

fun op_eq_portable :: "'a Vec \<Rightarrow> 'a Vec \<Rightarrow> 'm::len word Vec" where
  "op_eq_portable (Vec1 x) (Vec1 y) = Vec1 (word_of_int (if x = y then NOT 0 else 0))"
| "op_eq_portable (VecN xl xh) (VecN yl yh) = join (op_eq_portable xl yl) (op_eq_portable xh yh)"

fun op_ne_portable :: "'a Vec \<Rightarrow> 'a Vec \<Rightarrow> 'm::len word Vec" where
  "op_ne_portable (Vec1 x) (Vec1 y) = Vec1 (word_of_int (if x \<noteq> y then NOT 0 else 0))"
| "op_ne_portable (VecN xl xh) (VecN yl yh) = join (op_ne_portable xl yl) (op_ne_portable xh yh)"

fun op_le_portable :: "'a::ord Vec \<Rightarrow> 'a Vec \<Rightarrow> 'm::len word Vec" where
  "op_le_portable (Vec1 x) (Vec1 y) = Vec1 (word_of_int (if x \<le> y then NOT 0 else 0))"
| "op_le_portable (VecN xl xh) (VecN yl yh) = join (op_le_portable xl yl) (op_le_portable xh yh)"

fun op_ge_portable :: "'a::ord Vec \<Rightarrow> 'a Vec \<Rightarrow> 'm::len word Vec" where
  "op_ge_portable (Vec1 x) (Vec1 y) = Vec1 (word_of_int (if x \<ge> y then NOT 0 else 0))"
| "op_ge_portable (VecN xl xh) (VecN yl yh) = join (op_ge_portable xl yl) (op_ge_portable xh yh)"

fun op_lt_portable :: "'a::ord Vec \<Rightarrow> 'a Vec \<Rightarrow> 'm::len word Vec" where
  "op_lt_portable (Vec1 x) (Vec1 y) = Vec1 (word_of_int (if x < y then NOT 0 else 0))"
| "op_lt_portable (VecN xl xh) (VecN yl yh) = join (op_lt_portable xl yl) (op_lt_portable xh yh)"

fun op_gt_portable :: "'a::ord Vec \<Rightarrow> 'a Vec \<Rightarrow> 'm::len word Vec" where
  "op_gt_portable (Vec1 x) (Vec1 y) = Vec1 (word_of_int (if x > y then NOT 0 else 0))"
| "op_gt_portable (VecN xl xh) (VecN yl yh) = join (op_gt_portable xl yl) (op_gt_portable xh yh)"

text \<open>
  The same two overloads for an element type whose comparison is not HOL's equality or
  order: \<open>float\<close> and \<open>double\<close> compare by IEEE 754, under which a NaN differs from itself
  and the two zeros are equal. The scalar comparison is the parameter \<open>rel\<close>.
\<close>

fun op_rel_portable :: "('a \<Rightarrow> 'a \<Rightarrow> bool) \<Rightarrow> 'a Vec \<Rightarrow> 'a Vec \<Rightarrow> 'm::len word Vec" where
  "op_rel_portable rel (Vec1 x) (Vec1 y) = Vec1 (word_of_int (if rel x y then NOT 0 else 0))"
| "op_rel_portable rel (VecN xl xh) (VecN yl yh) =
     join (op_rel_portable rel xl yl) (op_rel_portable rel xh yh)"

text \<open>
  \<^verbatim>\<open>template <typename T> struct Mask { using type = T; };
  template <> struct Mask<float > { using type = int32_t; };
  template <> struct Mask<double> { using type = int64_t; };\<close>
  over the arithmetic element types, with their sizes in bytes.
\<close>

datatype scalar_type =
  Float | Double | Int8 | Int16 | Int32 | Int64 | UInt8 | UInt16 | UInt32 | UInt64

fun Mask :: "scalar_type \<Rightarrow> scalar_type" where
  "Mask Float = Int32"
| "Mask Double = Int64"
| "Mask T = T"

fun sizeof :: "scalar_type \<Rightarrow> nat" where
  "sizeof Float = 4"
| "sizeof Double = 8"
| "sizeof Int8 = 1"
| "sizeof Int16 = 2"
| "sizeof Int32 = 4"
| "sizeof Int64 = 8"
| "sizeof UInt8 = 1"
| "sizeof UInt16 = 2"
| "sizeof UInt32 = 4"
| "sizeof UInt64 = 8"

fun is_integer_type :: "scalar_type \<Rightarrow> bool" where
  "is_integer_type Float = False"
| "is_integer_type Double = False"
| "is_integer_type T = True"

section \<open>The operators of a build\<close>

text \<open>
  With the vector extensions every operator is
  \<^verbatim>\<open>to_vec<N,T>(to_vext(x) + to_vext(y))\<close>, for every \<open>N\<close> including 1; without them it
  is the portable overload. The operators on \<open>VExt<N,T>\<close> are the compiler's, not the
  header's. Clang and GCC document them as acting lane by lane with the scalar operation
  of the element type, with two exceptions that have no scalar counterpart of the same
  type: a comparison yields a vector of signed integers of the width of \<open>T\<close> holding -1
  where the comparison holds and 0 elsewhere, and \<open>!v\<close> is \<open>v == 0\<close>, with that same
  result convention. The mask vector is copied into \<open>Vec<N,M<T>>\<close> by \<open>bit_pun\<close>.
\<close>

definition op_add :: "build \<Rightarrow> nat \<Rightarrow> 'a::plus Vec \<Rightarrow> 'a Vec \<Rightarrow> 'a Vec" where
  "op_add b N x y =
     (if vext_available b then to_vec N (map2 (+) (to_vext x) (to_vext y))
      else op_add_portable x y)"

definition op_sub :: "build \<Rightarrow> nat \<Rightarrow> 'a::minus Vec \<Rightarrow> 'a Vec \<Rightarrow> 'a Vec" where
  "op_sub b N x y =
     (if vext_available b then to_vec N (map2 (-) (to_vext x) (to_vext y))
      else op_sub_portable x y)"

definition op_mul :: "build \<Rightarrow> nat \<Rightarrow> 'a::times Vec \<Rightarrow> 'a Vec \<Rightarrow> 'a Vec" where
  "op_mul b N x y =
     (if vext_available b then to_vec N (map2 (*) (to_vext x) (to_vext y))
      else op_mul_portable x y)"

definition op_div :: "build \<Rightarrow> nat \<Rightarrow> 'a::divide Vec \<Rightarrow> 'a Vec \<Rightarrow> 'a Vec" where
  "op_div b N x y =
     (if vext_available b then to_vec N (map2 (div) (to_vext x) (to_vext y))
      else op_div_portable x y)"

definition op_xor :: "build \<Rightarrow> nat \<Rightarrow> 'a::semiring_bit_operations Vec \<Rightarrow> 'a Vec \<Rightarrow> 'a Vec" where
  "op_xor b N x y =
     (if vext_available b then to_vec N (map2 (XOR) (to_vext x) (to_vext y))
      else op_xor_portable x y)"

definition op_and :: "build \<Rightarrow> nat \<Rightarrow> 'a::semiring_bit_operations Vec \<Rightarrow> 'a Vec \<Rightarrow> 'a Vec" where
  "op_and b N x y =
     (if vext_available b then to_vec N (map2 (AND) (to_vext x) (to_vext y))
      else op_and_portable x y)"

definition op_or :: "build \<Rightarrow> nat \<Rightarrow> 'a::semiring_bit_operations Vec \<Rightarrow> 'a Vec \<Rightarrow> 'a Vec" where
  "op_or b N x y =
     (if vext_available b then to_vec N (map2 (OR) (to_vext x) (to_vext y))
      else op_or_portable x y)"

definition op_lnot :: "build \<Rightarrow> nat \<Rightarrow> 'a::len word Vec \<Rightarrow> 'a word Vec" where
  "op_lnot b N x =
     (if vext_available b then to_vec N (map (\<lambda>v. if v = 0 then - 1 else 0) (to_vext x))
      else op_lnot_portable x)"

definition op_neg :: "build \<Rightarrow> nat \<Rightarrow> 'a::uminus Vec \<Rightarrow> 'a Vec" where
  "op_neg b N x =
     (if vext_available b then to_vec N (map uminus (to_vext x))
      else op_neg_portable x)"

definition op_bnot :: "build \<Rightarrow> nat \<Rightarrow> 'a::ring_bit_operations Vec \<Rightarrow> 'a Vec" where
  "op_bnot b N x =
     (if vext_available b then to_vec N (map NOT (to_vext x))
      else op_bnot_portable x)"

definition op_shl :: "build \<Rightarrow> nat \<Rightarrow> 'a::semiring_bit_operations Vec \<Rightarrow> int \<Rightarrow> 'a Vec" where
  "op_shl b N x bits =
     (if vext_available b then to_vec N (map (push_bit (nat bits)) (to_vext x))
      else op_shl_portable x bits)"

definition op_shr :: "build \<Rightarrow> nat \<Rightarrow> 'a::semiring_bit_operations Vec \<Rightarrow> int \<Rightarrow> 'a Vec" where
  "op_shr b N x bits =
     (if vext_available b then to_vec N (map (drop_bit (nat bits)) (to_vext x))
      else op_shr_portable x bits)"

definition op_eq :: "build \<Rightarrow> nat \<Rightarrow> 'a Vec \<Rightarrow> 'a Vec \<Rightarrow> 'm::len word Vec" where
  "op_eq b N x y =
     (if vext_available b
      then to_vec N (map2 (\<lambda>u v. if u = v then - 1 else 0) (to_vext x) (to_vext y))
      else op_eq_portable x y)"

definition op_ne :: "build \<Rightarrow> nat \<Rightarrow> 'a Vec \<Rightarrow> 'a Vec \<Rightarrow> 'm::len word Vec" where
  "op_ne b N x y =
     (if vext_available b
      then to_vec N (map2 (\<lambda>u v. if u \<noteq> v then - 1 else 0) (to_vext x) (to_vext y))
      else op_ne_portable x y)"

definition op_le :: "build \<Rightarrow> nat \<Rightarrow> 'a::ord Vec \<Rightarrow> 'a Vec \<Rightarrow> 'm::len word Vec" where
  "op_le b N x y =
     (if vext_available b
      then to_vec N (map2 (\<lambda>u v. if u \<le> v then - 1 else 0) (to_vext x) (to_vext y))
      else op_le_portable x y)"

definition op_ge :: "build \<Rightarrow> nat \<Rightarrow> 'a::ord Vec \<Rightarrow> 'a Vec \<Rightarrow> 'm::len word Vec" where
  "op_ge b N x y =
     (if vext_available b
      then to_vec N (map2 (\<lambda>u v. if u \<ge> v then - 1 else 0) (to_vext x) (to_vext y))
      else op_ge_portable x y)"

definition op_lt :: "build \<Rightarrow> nat \<Rightarrow> 'a::ord Vec \<Rightarrow> 'a Vec \<Rightarrow> 'm::len word Vec" where
  "op_lt b N x y =
     (if vext_available b
      then to_vec N (map2 (\<lambda>u v. if u < v then - 1 else 0) (to_vext x) (to_vext y))
      else op_lt_portable x y)"

definition op_gt :: "build \<Rightarrow> nat \<Rightarrow> 'a::ord Vec \<Rightarrow> 'a Vec \<Rightarrow> 'm::len word Vec" where
  "op_gt b N x y =
     (if vext_available b
      then to_vec N (map2 (\<lambda>u v. if u > v then - 1 else 0) (to_vext x) (to_vext y))
      else op_gt_portable x y)"

definition op_rel ::
  "build \<Rightarrow> nat \<Rightarrow> ('a \<Rightarrow> 'a \<Rightarrow> bool) \<Rightarrow> 'a Vec \<Rightarrow> 'a Vec \<Rightarrow> 'm::len word Vec" where
  "op_rel b N rel x y =
     (if vext_available b
      then to_vec N (map2 (\<lambda>u v. if rel u v then - 1 else 0) (to_vext x) (to_vext y))
      else op_rel_portable rel x y)"

section \<open>cast, if\_then\_else, shuffle\<close>

text \<open>
  \<^verbatim>\<open>Vec<1,D> cast(const Vec<1,S>& src) { return (D)src.val; }\<close> and, for the other widths,
  \<^verbatim>\<open>__builtin_convertvector(to_vext(src), VExt<N,D>)\<close> with Clang's builtins and
  \<^verbatim>\<open>join(cast<D>(src.lo), cast<D>(src.hi))\<close> without. The conversion between unsigned
  integer types is \<open>ucast\<close>: the value modulo \<open>2 ^ w\<close> for the width \<open>w\<close> of \<open>D\<close>.
\<close>

fun cast :: "build \<Rightarrow> nat \<Rightarrow> 'a::len word Vec \<Rightarrow> 'b::len word Vec" where
  "cast b N (Vec1 v) = Vec1 (ucast v)"
| "cast b N (VecN l h) =
     (if clang_builtins b then to_vec N (map ucast (to_vext (VecN l h)))
      else join (cast b (N div 2) l) (cast b (N div 2) h))"

text \<open>
  The blend instructions that \<open>if_then_else\<close> uses for four or eight lanes of four bytes,
  as their vendors document them: \<open>_mm_blendv_ps(a, b, mask)\<close> and
  \<open>_mm256_blendv_ps(a, b, mask)\<close> take each 32-bit lane from \<open>b\<close> where bit 31 of the
  lane of \<open>mask\<close> is set and from \<open>a\<close> elsewhere; \<open>vbslq_f32(mask, a, b)\<close> takes each bit
  from \<open>a\<close> where the bit of \<open>mask\<close> is set and from \<open>b\<close> elsewhere.
\<close>

definition mm_blendv_ps :: "'a::len word list \<Rightarrow> 'a word list \<Rightarrow> 'a word list \<Rightarrow> 'a word list" where
  "mm_blendv_ps a b msk = map (\<lambda>(m, x, y). if bit m 31 then y else x) (zip msk (zip a b))"

definition vbslq_f32 :: "'a::len word list \<Rightarrow> 'a word list \<Rightarrow> 'a word list \<Rightarrow> 'a word list" where
  "vbslq_f32 msk a b = map (\<lambda>(m, x, y). (m AND x) OR (NOT m AND y)) (zip msk (zip a b))"

text \<open>
  \<open>if_then_else(cond, t, e)\<close>. A lane of \<open>T\<close> is its bit pattern, a word of the width of
  \<open>T\<close>, which is also the width of \<open>M<T>\<close>; \<open>bit_pun\<close> between \<open>Vec<N,T>\<close> and
  \<open>Vec<N,M<T>>\<close> leaves the pattern as it is. \<open>sizeof(T) == 4\<close> is \<open>LENGTH('a) = 32\<close>.
  The tests on \<open>N\<close> and \<open>sizeof(T)\<close> are in the order of the source.
\<close>

fun if_then_else :: "build \<Rightarrow> nat \<Rightarrow> 'a::len word Vec \<Rightarrow> 'a word Vec \<Rightarrow> 'a word Vec \<Rightarrow> 'a word Vec" where
  "if_then_else b N (Vec1 c) (Vec1 t) (Vec1 e) =
     op_or b 1 (op_and b 1 (Vec1 c) (Vec1 t)) (op_and b 1 (op_bnot b 1 (Vec1 c)) (Vec1 e))"
| "if_then_else b N (VecN cl ch) (VecN tlo thi) (VecN el eh) =
     (let cond = VecN cl ch; t = VecN tlo thi; e = VecN el eh in
      if avx b \<and> N = 8 \<and> LENGTH('a) = 32
        then to_vec N (mm_blendv_ps (to_vext e) (to_vext t) (to_vext cond))
      else if sse4_1 b \<and> N = 4 \<and> LENGTH('a) = 32
        then to_vec N (mm_blendv_ps (to_vext e) (to_vext t) (to_vext cond))
      else if arm_neon b \<and> N = 4 \<and> LENGTH('a) = 32
        then to_vec N (vbslq_f32 (to_vext cond) (to_vext t) (to_vext e))
      else if N > 4
        then join (if_then_else b (N div 2) cl tlo el) (if_then_else b (N div 2) ch thi eh)
      else op_or b N (op_and b N cond t) (op_and b N (op_bnot b N cond) e))"

text \<open>
  \<open>shuffle<Ix...>(x)\<close>, with the index pack as a list. Without Clang's builtins it is
  \<^verbatim>\<open>return { x[Ix]... };\<close>, the initializer-list constructor of \<open>Vec<sizeof...(Ix),T>\<close>.
  With them it is \<^verbatim>\<open>__builtin_shufflevector(to_vext(x), to_vext(x), Ix...)\<close>, which
  numbers the lanes of its two operands from 0 to \<open>2*N-1\<close> and is rejected at compile
  time for an index that is not below \<open>2*N\<close>; a lane of index -1 is left unspecified.
  Both are \<open>None\<close> here.
\<close>

definition shuffle :: "build \<Rightarrow> int list \<Rightarrow> nat \<Rightarrow> 'a::zero Vec \<Rightarrow> 'a Vec option" where
  "shuffle b Ix N x =
     (if clang_builtins b
      then (if list_all (\<lambda>i. 0 \<le> i \<and> i < 2 * int N) Ix
            then Some (to_vec (length Ix) (map (\<lambda>i. (to_vext x @ to_vext x) ! nat i) Ix))
            else None)
      else Vec_init (length Ix) (map (op_index N x) Ix))"

section \<open>Half floats and 8-bit fixed point\<close>





text \<open>\<^verbatim>\<open>return cast<uint8_t>( (x+127)/255 );\<close>\<close>

definition div255 :: "build \<Rightarrow> nat \<Rightarrow> 16 word Vec \<Rightarrow> 8 word Vec" where
  "div255 b N x = cast b N (op_div b N (op_add b N x (splat N 127)) (splat N 255))"

text \<open>\<^verbatim>\<open>auto X = cast<uint16_t>(x), Y = cast<uint16_t>(y);
  return cast<uint8_t>( (X*Y+X)/256 );\<close>\<close>

definition approx_scale :: "build \<Rightarrow> nat \<Rightarrow> 8 word Vec \<Rightarrow> 8 word Vec \<Rightarrow> 8 word Vec" where
  "approx_scale b N x y =
     (let X = (cast b N x :: 16 word Vec);
          Y = (cast b N y :: 16 word Vec)
      in cast b N (op_div b N (op_add b N (op_mul b N X Y) X) (splat N 256)))"

section \<open>Lane-wise maps\<close>

text \<open>The vector that applies a scalar function to each lane, or to the lanes of two
  vectors of one width: what every operator is shown to compute.\<close>

fun vmap :: "('a \<Rightarrow> 'b) \<Rightarrow> 'a Vec \<Rightarrow> 'b Vec" where
  "vmap f (Vec1 x) = Vec1 (f x)"
| "vmap f (VecN l h) = VecN (vmap f l) (vmap f h)"

fun vmap2 :: "('a \<Rightarrow> 'b \<Rightarrow> 'c) \<Rightarrow> 'a Vec \<Rightarrow> 'b Vec \<Rightarrow> 'c Vec" where
  "vmap2 f (Vec1 x) (Vec1 y) = Vec1 (f x y)"
| "vmap2 f (VecN xl xh) (VecN yl yh) = VecN (vmap2 f xl yl) (vmap2 f xh yh)"

text \<open>A mask lane is all bits set or all bits clear.\<close>

definition is_mask_lane :: "'a::len word \<Rightarrow> bool" where
  "is_mask_lane m = (m = - 1 \<or> m = 0)"

section \<open>One lane of the selection and of the half-float conversions\<close>

text \<open>The bit identity of \<open>if_then_else\<close> on one lane.\<close>

definition bitsel :: "'a::len word \<Rightarrow> 'a word \<Rightarrow> 'a word \<Rightarrow> 'a word" where
  "bitsel c t e = (c AND t) OR (NOT c AND e)"










section \<open>Two concrete builds\<close>

text \<open>A Clang build that uses the vector extensions, and a build with \<open>SKNX_NO_SIMD\<close>.\<close>

definition build_vext :: build where
  "build_vext = \<lparr>no_simd = False, compiler = Clang, avx = False, sse4_1 = False, arm_neon = False,
       f16c = False, aarch64 = False\<rparr>"

definition build_portable :: build where
  "build_portable = \<lparr>no_simd = True, compiler = Clang, avx = False, sse4_1 = False, arm_neon = False,
       f16c = False, aarch64 = False\<rparr>"

text \<open>A GCC build for a target with SSE4.1.\<close>

definition build_sse4_1 :: build where
  "build_sse4_1 = \<lparr>no_simd = False, compiler = GCC, avx = False, sse4_1 = True, arm_neon = False,
       f16c = False, aarch64 = False\<rparr>"

section \<open>Basic facts about the representation\<close>

lemma is_Vec_pos: "is_Vec N v \<Longrightarrow> 0 < N"
  by (cases v) auto

lemma is_Vec_pow2: "is_Vec N v \<Longrightarrow> \<exists>k. N = 2 ^ k"
proof (induction v arbitrary: N)
  case (Vec1 x)
  then have "N = 2 ^ 0" by simp
  then show ?case by blast
next
  case (VecN l h)
  then obtain k where "N div 2 = 2 ^ k" by auto
  moreover from VecN.prems have "even N" by simp
  ultimately have "N = 2 ^ Suc k" by auto
  then show ?case by blast
qed

lemma length_to_vext: "is_Vec N v \<Longrightarrow> length (to_vext v) = N"
  by (induction v arbitrary: N) auto

section \<open>Facts about the lane-wise maps\<close>

lemma to_vec_to_vext: "is_Vec N v \<Longrightarrow> to_vec N (to_vext v) = v"
proof (induction v arbitrary: N)
  case (Vec1 x)
  then show ?case by (simp add: to_vec.simps)
next
  case (VecN l h)
  from VecN.prems have l: "is_Vec (N div 2) l" and h: "is_Vec (N div 2) h" and N: "\<not> N \<le> 1"
    by auto
  have "to_vec N (to_vext l @ to_vext h) =
        VecN (to_vec (N div 2) (to_vext l)) (to_vec (N div 2) (to_vext h))"
    using N length_to_vext [OF l] by (subst to_vec.simps) simp
  then show ?case using VecN.IH(1) [OF l] VecN.IH(2) [OF h] by simp
qed

lemma is_Vec_vmap: "is_Vec N x \<Longrightarrow> is_Vec N (vmap f x)"
  by (induction x arbitrary: N) auto

lemma is_Vec_vmap2: "is_Vec N x \<Longrightarrow> is_Vec N y \<Longrightarrow> is_Vec N (vmap2 f x y)"
proof (induction x arbitrary: N y)
  case (Vec1 a)
  then show ?case by (cases y) auto
next
  case (VecN l h)
  then show ?case by (cases y) auto
qed

lemma to_vext_vmap: "to_vext (vmap f x) = map f (to_vext x)"
  by (induction x) auto

lemma to_vext_vmap2:
  "is_Vec N x \<Longrightarrow> is_Vec N y \<Longrightarrow> to_vext (vmap2 f x y) = map2 f (to_vext x) (to_vext y)"
proof (induction x arbitrary: N y)
  case (Vec1 a)
  then show ?case by (cases y) auto
next
  case (VecN l h)
  then show ?case by (cases y) (auto simp: length_to_vext)
qed

lemma vext_map: "is_Vec N x \<Longrightarrow> to_vec N (map f (to_vext x)) = vmap f x"
  using to_vec_to_vext [OF is_Vec_vmap, of N x f] by (simp add: to_vext_vmap)

lemma vext_map2:
  "is_Vec N x \<Longrightarrow> is_Vec N y \<Longrightarrow> to_vec N (map2 f (to_vext x) (to_vext y)) = vmap2 f x y"
  using to_vec_to_vext [OF is_Vec_vmap2, of N x y f] by (simp add: to_vext_vmap2)

lemma op_index_vmap: "op_index N (vmap f x) i = f (op_index N x i)"
  by (induction x arbitrary: N i) auto

lemma op_index_vmap2:
  "is_Vec N x \<Longrightarrow> is_Vec N y \<Longrightarrow>
   op_index N (vmap2 f x y) i = f (op_index N x i) (op_index N y i)"
proof (induction x arbitrary: N y i)
  case (Vec1 a)
  then show ?case by (cases y) auto
next
  case (VecN l h)
  then show ?case by (cases y) auto
qed

lemma op_index_to_vext:
  "is_Vec N v \<Longrightarrow> 0 \<le> i \<Longrightarrow> i < int N \<Longrightarrow> op_index N v i = to_vext v ! nat i"
proof (induction v arbitrary: N i)
  case (Vec1 x)
  then show ?case by simp
next
  case (VecN l h)
  then show ?case
    by (auto simp: nth_append length_to_vext nat_diff_distrib)
qed

section \<open>Every operator is a lane-wise map\<close>

lemma op_add_portable_vmap2:
  "is_Vec N x \<Longrightarrow> is_Vec N y \<Longrightarrow> op_add_portable x y = vmap2 (+) x y"
proof (induction x arbitrary: N y)
  case (Vec1 a)
  then show ?case by (cases y) auto
next
  case (VecN l h)
  then show ?case by (cases y) (auto simp: join_def)
qed

lemma op_add_vmap2:
  "is_Vec N x \<Longrightarrow> is_Vec N y \<Longrightarrow> op_add b N x y = vmap2 (+) x y"
  by (simp add: op_add_def vext_map2 op_add_portable_vmap2)

lemma op_sub_portable_vmap2:
  "is_Vec N x \<Longrightarrow> is_Vec N y \<Longrightarrow> op_sub_portable x y = vmap2 (-) x y"
proof (induction x arbitrary: N y)
  case (Vec1 a)
  then show ?case by (cases y) auto
next
  case (VecN l h)
  then show ?case by (cases y) (auto simp: join_def)
qed

lemma op_sub_vmap2:
  "is_Vec N x \<Longrightarrow> is_Vec N y \<Longrightarrow> op_sub b N x y = vmap2 (-) x y"
  by (simp add: op_sub_def vext_map2 op_sub_portable_vmap2)

lemma op_mul_portable_vmap2:
  "is_Vec N x \<Longrightarrow> is_Vec N y \<Longrightarrow> op_mul_portable x y = vmap2 (*) x y"
proof (induction x arbitrary: N y)
  case (Vec1 a)
  then show ?case by (cases y) auto
next
  case (VecN l h)
  then show ?case by (cases y) (auto simp: join_def)
qed

lemma op_mul_vmap2:
  "is_Vec N x \<Longrightarrow> is_Vec N y \<Longrightarrow> op_mul b N x y = vmap2 (*) x y"
  by (simp add: op_mul_def vext_map2 op_mul_portable_vmap2)

lemma op_div_portable_vmap2:
  "is_Vec N x \<Longrightarrow> is_Vec N y \<Longrightarrow> op_div_portable x y = vmap2 (div) x y"
proof (induction x arbitrary: N y)
  case (Vec1 a)
  then show ?case by (cases y) auto
next
  case (VecN l h)
  then show ?case by (cases y) (auto simp: join_def)
qed

lemma op_div_vmap2:
  "is_Vec N x \<Longrightarrow> is_Vec N y \<Longrightarrow> op_div b N x y = vmap2 (div) x y"
  by (simp add: op_div_def vext_map2 op_div_portable_vmap2)

lemma op_xor_portable_vmap2:
  "is_Vec N x \<Longrightarrow> is_Vec N y \<Longrightarrow> op_xor_portable x y = vmap2 (XOR) x y"
proof (induction x arbitrary: N y)
  case (Vec1 a)
  then show ?case by (cases y) auto
next
  case (VecN l h)
  then show ?case by (cases y) (auto simp: join_def)
qed

lemma op_xor_vmap2:
  "is_Vec N x \<Longrightarrow> is_Vec N y \<Longrightarrow> op_xor b N x y = vmap2 (XOR) x y"
  by (simp add: op_xor_def vext_map2 op_xor_portable_vmap2)

lemma op_and_portable_vmap2:
  "is_Vec N x \<Longrightarrow> is_Vec N y \<Longrightarrow> op_and_portable x y = vmap2 (AND) x y"
proof (induction x arbitrary: N y)
  case (Vec1 a)
  then show ?case by (cases y) auto
next
  case (VecN l h)
  then show ?case by (cases y) (auto simp: join_def)
qed

lemma op_and_vmap2:
  "is_Vec N x \<Longrightarrow> is_Vec N y \<Longrightarrow> op_and b N x y = vmap2 (AND) x y"
  by (simp add: op_and_def vext_map2 op_and_portable_vmap2)

lemma op_or_portable_vmap2:
  "is_Vec N x \<Longrightarrow> is_Vec N y \<Longrightarrow> op_or_portable x y = vmap2 (OR) x y"
proof (induction x arbitrary: N y)
  case (Vec1 a)
  then show ?case by (cases y) auto
next
  case (VecN l h)
  then show ?case by (cases y) (auto simp: join_def)
qed

lemma op_or_vmap2:
  "is_Vec N x \<Longrightarrow> is_Vec N y \<Longrightarrow> op_or b N x y = vmap2 (OR) x y"
  by (simp add: op_or_def vext_map2 op_or_portable_vmap2)

lemma op_eq_portable_vmap2:
  "is_Vec N x \<Longrightarrow> is_Vec N y \<Longrightarrow> op_eq_portable x y = vmap2 (\<lambda>u v. if u = v then - 1 else 0) x y"
proof (induction x arbitrary: N y)
  case (Vec1 a)
  then show ?case by (cases y) auto
next
  case (VecN l h)
  then show ?case by (cases y) (auto simp: join_def)
qed

lemma op_eq_vmap2:
  "is_Vec N x \<Longrightarrow> is_Vec N y \<Longrightarrow> op_eq b N x y = vmap2 (\<lambda>u v. if u = v then - 1 else 0) x y"
  by (simp add: op_eq_def vext_map2 op_eq_portable_vmap2)

lemma op_ne_portable_vmap2:
  "is_Vec N x \<Longrightarrow> is_Vec N y \<Longrightarrow> op_ne_portable x y = vmap2 (\<lambda>u v. if u \<noteq> v then - 1 else 0) x y"
proof (induction x arbitrary: N y)
  case (Vec1 a)
  then show ?case by (cases y) auto
next
  case (VecN l h)
  then show ?case by (cases y) (auto simp: join_def)
qed

lemma op_ne_vmap2:
  "is_Vec N x \<Longrightarrow> is_Vec N y \<Longrightarrow> op_ne b N x y = vmap2 (\<lambda>u v. if u \<noteq> v then - 1 else 0) x y"
  by (simp add: op_ne_def vext_map2 op_ne_portable_vmap2)

lemma op_le_portable_vmap2:
  "is_Vec N x \<Longrightarrow> is_Vec N y \<Longrightarrow> op_le_portable x y = vmap2 (\<lambda>u v. if u \<le> v then - 1 else 0) x y"
proof (induction x arbitrary: N y)
  case (Vec1 a)
  then show ?case by (cases y) auto
next
  case (VecN l h)
  then show ?case by (cases y) (auto simp: join_def)
qed

lemma op_le_vmap2:
  "is_Vec N x \<Longrightarrow> is_Vec N y \<Longrightarrow> op_le b N x y = vmap2 (\<lambda>u v. if u \<le> v then - 1 else 0) x y"
  by (simp add: op_le_def vext_map2 op_le_portable_vmap2)

lemma op_ge_portable_vmap2:
  "is_Vec N x \<Longrightarrow> is_Vec N y \<Longrightarrow> op_ge_portable x y = vmap2 (\<lambda>u v. if u \<ge> v then - 1 else 0) x y"
proof (induction x arbitrary: N y)
  case (Vec1 a)
  then show ?case by (cases y) auto
next
  case (VecN l h)
  then show ?case by (cases y) (auto simp: join_def)
qed

lemma op_ge_vmap2:
  "is_Vec N x \<Longrightarrow> is_Vec N y \<Longrightarrow> op_ge b N x y = vmap2 (\<lambda>u v. if u \<ge> v then - 1 else 0) x y"
  by (simp add: op_ge_def vext_map2 op_ge_portable_vmap2)

lemma op_lt_portable_vmap2:
  "is_Vec N x \<Longrightarrow> is_Vec N y \<Longrightarrow> op_lt_portable x y = vmap2 (\<lambda>u v. if u < v then - 1 else 0) x y"
proof (induction x arbitrary: N y)
  case (Vec1 a)
  then show ?case by (cases y) auto
next
  case (VecN l h)
  then show ?case by (cases y) (auto simp: join_def)
qed

lemma op_lt_vmap2:
  "is_Vec N x \<Longrightarrow> is_Vec N y \<Longrightarrow> op_lt b N x y = vmap2 (\<lambda>u v. if u < v then - 1 else 0) x y"
  by (simp add: op_lt_def vext_map2 op_lt_portable_vmap2)

lemma op_gt_portable_vmap2:
  "is_Vec N x \<Longrightarrow> is_Vec N y \<Longrightarrow> op_gt_portable x y = vmap2 (\<lambda>u v. if u > v then - 1 else 0) x y"
proof (induction x arbitrary: N y)
  case (Vec1 a)
  then show ?case by (cases y) auto
next
  case (VecN l h)
  then show ?case by (cases y) (auto simp: join_def)
qed

lemma op_gt_vmap2:
  "is_Vec N x \<Longrightarrow> is_Vec N y \<Longrightarrow> op_gt b N x y = vmap2 (\<lambda>u v. if u > v then - 1 else 0) x y"
  by (simp add: op_gt_def vext_map2 op_gt_portable_vmap2)

lemma op_rel_portable_vmap2:
  "is_Vec N x \<Longrightarrow> is_Vec N y \<Longrightarrow>
   op_rel_portable rel x y = vmap2 (\<lambda>u v. if rel u v then - 1 else 0) x y"
proof (induction x arbitrary: N y)
  case (Vec1 a)
  then show ?case by (cases y) auto
next
  case (VecN l h)
  then show ?case by (cases y) (auto simp: join_def)
qed

lemma op_rel_vmap2:
  "is_Vec N x \<Longrightarrow> is_Vec N y \<Longrightarrow>
   op_rel b N rel x y = vmap2 (\<lambda>u v. if rel u v then - 1 else 0) x y"
  by (simp add: op_rel_def vext_map2 op_rel_portable_vmap2)

lemma op_neg_portable_vmap: "op_neg_portable x = vmap uminus x"
  by (induction x) (auto simp: join_def)

lemma op_neg_vmap: "is_Vec N x \<Longrightarrow> op_neg b N x = vmap uminus x"
  by (simp add: op_neg_def vext_map op_neg_portable_vmap)

lemma op_bnot_portable_vmap: "op_bnot_portable x = vmap NOT x"
  by (induction x) (auto simp: join_def)

lemma op_bnot_vmap: "is_Vec N x \<Longrightarrow> op_bnot b N x = vmap NOT x"
  by (simp add: op_bnot_def vext_map op_bnot_portable_vmap)

lemma op_shl_portable_vmap: "op_shl_portable x bits = vmap (push_bit (nat bits)) x"
  by (induction x) (auto simp: join_def)

lemma op_shl_vmap: "is_Vec N x \<Longrightarrow> op_shl b N x bits = vmap (push_bit (nat bits)) x"
  by (simp add: op_shl_def vext_map op_shl_portable_vmap)

lemma op_shr_portable_vmap: "op_shr_portable x bits = vmap (drop_bit (nat bits)) x"
  by (induction x) (auto simp: join_def)

lemma op_shr_vmap: "is_Vec N x \<Longrightarrow> op_shr b N x bits = vmap (drop_bit (nat bits)) x"
  by (simp add: op_shr_def vext_map op_shr_portable_vmap)

lemma op_lnot_portable_vmap: "op_lnot_portable x = vmap (\<lambda>v. of_bool (v = 0)) x"
  by (induction x) (auto simp: join_def)

lemma op_lnot_vmap:
  "is_Vec N x \<Longrightarrow>
   op_lnot b N x = vmap (\<lambda>v. if vext_available b then (if v = 0 then - 1 else 0) else of_bool (v = 0)) x"
  by (simp add: op_lnot_def vext_map op_lnot_portable_vmap)

lemma cast_vmap: "is_Vec N x \<Longrightarrow> cast b N x = vmap ucast x"
proof (induction x arbitrary: N)
  case (Vec1 v)
  then show ?case by simp
next
  case (VecN l h)
  show ?case
  proof (cases "clang_builtins b")
    case True
    then show ?thesis using vext_map [OF VecN.prems, of ucast] by simp
  next
    case False
    then show ?thesis using VecN by (simp add: join_def)
  qed
qed

lemma is_Vec_splat: "is_Vec N v \<Longrightarrow> is_Vec N (splat N c)"
proof (induction v arbitrary: N)
  case (Vec1 x)
  then show ?case by (simp add: splat.simps)
next
  case (VecN l h)
  then show ?case by (subst splat.simps) auto
qed

lemma op_index_splat: "is_Vec N v \<Longrightarrow> op_index N (splat N c) i = c"
proof (induction v arbitrary: N i)
  case (Vec1 x)
  then show ?case by (simp add: splat.simps)
next
  case (VecN l h)
  then show ?case by (subst splat.simps) auto
qed

section \<open>Indexing\<close>

lemma op_index_below:
  "is_Vec N v \<Longrightarrow> i < 0 \<Longrightarrow> op_index N v i = to_vext v ! 0"
proof (induction v arbitrary: N)
  case (Vec1 x)
  then show ?case by simp
next
  case (VecN l h)
  from VecN.prems have "to_vext l \<noteq> []" using length_to_vext [of "N div 2" l] by auto
  then show ?case using VecN by (auto simp: nth_append)
qed

lemma op_index_above:
  "is_Vec N v \<Longrightarrow> int N \<le> i \<Longrightarrow> op_index N v i = to_vext v ! (N - 1)"
proof (induction v arbitrary: N i)
  case (Vec1 x)
  then show ?case by simp
next
  case (VecN l h)
  from VecN.prems have h: "is_Vec (N div 2) h" and l: "is_Vec (N div 2) l" and N: "1 < N" "even N"
    by auto
  have i: "int (N div 2) \<le> i - int (N div 2)" using VecN.prems(2) N by auto
  have "op_index N (VecN l h) i = op_index (N div 2) h (i - int (N div 2))"
    using i N by auto
  also have "\<dots> = to_vext h ! (N div 2 - 1)" by (rule VecN.IH(2) [OF h i])
  also have "\<dots> = to_vext (VecN l h) ! (N - 1)"
    using length_to_vext [OF l] N by (auto simp: nth_append)
  finally show ?case .
qed

text \<open>
  Claim C9. Indexing is total and reads no lane that is not there. Lane \<open>k\<close> of a vector is
  element \<open>k\<close> of its memory image \<open>to_vext v\<close>, which has exactly \<open>N\<close> elements. For every
  \<open>int\<close> index \<open>i\<close>, \<open>v[i]\<close> is lane \<open>i\<close> when \<open>0 \<le> i < N\<close>, lane \<open>N - 1\<close> when \<open>i \<ge> N\<close> and
  lane 0 when \<open>i < 0\<close>: each level compares \<open>i\<close> with \<open>N/2\<close> only and the one-lane case
  ignores the index.
\<close>

theorem op_index_total:
  assumes "is_Vec N v"
  shows "(0 \<le> i \<and> i < int N \<longrightarrow> op_index N v i = to_vext v ! nat i)
       \<and> (int N \<le> i \<longrightarrow> op_index N v i = to_vext v ! (N - 1))
       \<and> (i < 0 \<longrightarrow> op_index N v i = to_vext v ! 0)
       \<and> length (to_vext v) = N \<and> 0 < N"
  using assms op_index_to_vext [OF assms] op_index_above [OF assms] op_index_below [OF assms]
  by (simp add: length_to_vext is_Vec_pos)

theorem op_index_total_witness:
  "op_index 4 (VecN (VecN (Vec1 (10::int)) (Vec1 11)) (VecN (Vec1 12) (Vec1 13))) 2 = 12
   \<and> op_index 4 (VecN (VecN (Vec1 (10::int)) (Vec1 11)) (VecN (Vec1 12) (Vec1 13))) 7 = 13
   \<and> op_index 4 (VecN (VecN (Vec1 (10::int)) (Vec1 11)) (VecN (Vec1 12) (Vec1 13))) (- 5) = 10"
  using op_index_total [of 4 "VecN (VecN (Vec1 (10::int)) (Vec1 11)) (VecN (Vec1 12) (Vec1 13))" 2]
    op_index_total [of 4 "VecN (VecN (Vec1 (10::int)) (Vec1 11)) (VecN (Vec1 12) (Vec1 13))" 7]
    op_index_total [of 4 "VecN (VecN (Vec1 (10::int)) (Vec1 11)) (VecN (Vec1 12) (Vec1 13))" "- 5"]
  by simp

section \<open>Element-wise laws\<close>



section \<open>Comparison masks\<close>

text \<open>
  Claim C6. For every width \<open>N\<close>, every build, every element type and every mask type
  \<open>M<T>\<close> (an integer type of any width), each of \<open>==\<close>, \<open>!=\<close>, \<open><=\<close>, \<open>>=\<close>, \<open><\<close>, \<open>>\<close> yields in
  every lane all bits set when the comparison of the two lanes holds and all bits clear
  when it does not, and so never any other pattern; the same holds whatever relation the
  scalar comparison of \<open>T\<close> is. \<open>M<T>\<close> is \<open>int32_t\<close> for \<open>float\<close>, \<open>int64_t\<close> for \<open>double\<close> and
  \<open>T\<close> otherwise: an integer type of the size of \<open>T\<close>.
\<close>

theorem comparison_masks:
  fixes x y :: "'a::ord Vec" and T :: scalar_type
  assumes "is_Vec N x" and "is_Vec N y"
  shows "(op_index N (op_eq b N x y :: 'm::len word Vec) i = (if op_index N x i = op_index N y i then - 1 else 0))
       \<and> (op_index N (op_ne b N x y :: 'm word Vec) i = (if op_index N x i \<noteq> op_index N y i then - 1 else 0))
       \<and> (op_index N (op_le b N x y :: 'm word Vec) i = (if op_index N x i \<le> op_index N y i then - 1 else 0))
       \<and> (op_index N (op_ge b N x y :: 'm word Vec) i = (if op_index N x i \<ge> op_index N y i then - 1 else 0))
       \<and> (op_index N (op_lt b N x y :: 'm word Vec) i = (if op_index N x i < op_index N y i then - 1 else 0))
       \<and> (op_index N (op_gt b N x y :: 'm word Vec) i = (if op_index N x i > op_index N y i then - 1 else 0))
       \<and> (op_index N (op_rel b N rel x y :: 'm word Vec) i = (if rel (op_index N x i) (op_index N y i) then - 1 else 0))
       \<and> is_mask_lane (op_index N (op_eq b N x y :: 'm word Vec) i)
       \<and> is_mask_lane (op_index N (op_ne b N x y :: 'm word Vec) i)
       \<and> is_mask_lane (op_index N (op_le b N x y :: 'm word Vec) i)
       \<and> is_mask_lane (op_index N (op_ge b N x y :: 'm word Vec) i)
       \<and> is_mask_lane (op_index N (op_lt b N x y :: 'm word Vec) i)
       \<and> is_mask_lane (op_index N (op_gt b N x y :: 'm word Vec) i)
       \<and> is_mask_lane (op_index N (op_rel b N rel x y :: 'm word Vec) i)
       \<and> Mask Float = Int32 \<and> Mask Double = Int64
       \<and> (T \<noteq> Float \<and> T \<noteq> Double \<longrightarrow> Mask T = T)
       \<and> is_integer_type (Mask T) \<and> sizeof (Mask T) = sizeof T"
proof -
  have "is_integer_type (Mask T) \<and> sizeof (Mask T) = sizeof T
      \<and> (T \<noteq> Float \<and> T \<noteq> Double \<longrightarrow> Mask T = T)"
    by (cases T) simp_all
  then show ?thesis
    using assms
    by (simp add: op_eq_vmap2 op_ne_vmap2 op_le_vmap2 op_ge_vmap2 op_lt_vmap2 op_gt_vmap2
        op_rel_vmap2 op_index_vmap2 is_mask_lane_def)
qed

theorem comparison_masks_witness:
  "op_index 2 (op_lt build_portable 2 (VecN (Vec1 (3 :: 8 word)) (Vec1 9)) (VecN (Vec1 5) (Vec1 2)) :: 8 word Vec) 0 = 255
 \<and> op_index 2 (op_lt build_vext 2 (VecN (Vec1 (3 :: 8 word)) (Vec1 9)) (VecN (Vec1 5) (Vec1 2)) :: 8 word Vec) 1 = 0
 \<and> Mask UInt16 = UInt16"
  using comparison_masks [of 2 "VecN (Vec1 (3 :: 8 word)) (Vec1 9)" "VecN (Vec1 5) (Vec1 2)" build_portable 0 _ UInt16, where ?'m = 8]
   comparison_masks [of 2 "VecN (Vec1 (3 :: 8 word)) (Vec1 9)" "VecN (Vec1 5) (Vec1 2)" build_vext 1, where ?'m = 8]
  by simp

section \<open>Loading and the initializer-list constructor\<close>

lemma Load_pow2:
  "2 ^ k \<le> length p \<Longrightarrow> \<exists>v. Load (2 ^ k) p = Some v \<and> is_Vec (2 ^ k) v \<and> to_vext v = take (2 ^ k) p"
proof (induction k arbitrary: p)
  case 0
  then obtain a q where "p = a # q" by (cases p) auto
  then show ?case by (simp add: Load.simps)
next
  case (Suc k)
  let ?h = "(2::nat) ^ k"
  have half: "(2::nat) ^ Suc k div 2 = ?h" by simp
  from Suc.prems have lenl: "?h \<le> length p" and lenh: "?h \<le> length (drop ?h p)" by auto
  obtain l where l: "Load ?h p = Some l" "is_Vec ?h l" "to_vext l = take ?h p"
    using Suc.IH [OF lenl] by blast
  obtain h where h: "Load ?h (drop ?h p) = Some h" "is_Vec ?h h" "to_vext h = take ?h (drop ?h p)"
    using Suc.IH [OF lenh] by blast
  have gt1: "1 < (2::nat) ^ Suc k" by (rule one_less_power) simp_all
  then have not1: "\<not> (2::nat) ^ Suc k \<le> 1" by simp
  have "Load (2 ^ Suc k) p = Some (VecN l h)"
    using l(1) h(1) not1 by (subst Load.simps) (simp only: half if_False option.case)
  moreover have "is_Vec (2 ^ Suc k) (VecN l h)" using l(2) h(2) gt1 by simp
  moreover have "to_vext (VecN l h) = take (2 ^ Suc k) p"
    using l(3) h(3) by (simp add: take_add [symmetric] mult_2)
  ultimately show ?case by blast
qed

lemma to_vec_pow2:
  "length xs = 2 ^ k \<Longrightarrow> is_Vec (2 ^ k) (to_vec (2 ^ k) xs) \<and> to_vext (to_vec (2 ^ k) xs) = xs"
proof (induction k arbitrary: xs)
  case 0
  then obtain a where "xs = [a]" by (cases xs) auto
  then show ?case by (simp add: to_vec.simps)
next
  case (Suc k)
  let ?h = "(2::nat) ^ k"
  have half: "(2::nat) ^ Suc k div 2 = ?h" by simp
  have gt1: "1 < (2::nat) ^ Suc k" by (rule one_less_power) simp_all
  then have not1: "\<not> (2::nat) ^ Suc k \<le> 1" by simp
  from Suc.prems have lenl: "length (take ?h xs) = ?h" and lenh: "length (drop ?h xs) = ?h" by auto
  have unfold: "to_vec (2 ^ Suc k) xs = VecN (to_vec ?h (take ?h xs)) (to_vec ?h (drop ?h xs))"
    using not1 by (subst to_vec.simps) (simp only: half if_False)
  show ?case using Suc.IH [OF lenl] Suc.IH [OF lenh] unfold gt1 by simp
qed

lemma memcpy_vals_eq: "memcpy_vals N xs = take N xs @ replicate (N - length xs) 0"
  by (auto simp: memcpy_vals_def Let_def min_def)

lemma Vec_init_pow2:
  "\<exists>v. Vec_init (2 ^ k) xs = Some v \<and> is_Vec (2 ^ k) v
       \<and> to_vext v = take (2 ^ k) xs @ replicate (2 ^ k - length xs) 0"
proof (cases k)
  case 0
  then show ?thesis by (cases xs) (auto simp: Vec_init_def)
next
  case (Suc j)
  let ?N = "(2::nat) ^ k" and ?h = "(2::nat) ^ j"
  let ?vals = "memcpy_vals ?N xs"
  have "1 < (2::nat) ^ Suc j" by (rule one_less_power) simp_all
  then have not1: "\<not> ?N \<le> 1" using Suc by simp
  have half: "?N div 2 = ?h" and N: "?N = ?h + ?h" using Suc by auto
  have len: "length ?vals = ?N" by (auto simp: memcpy_vals_eq)
  have lenl: "?h \<le> length ?vals" and lenh: "?h \<le> length (drop ?h ?vals)"
    using len N by auto
  obtain l where l: "Load ?h ?vals = Some l" "is_Vec ?h l" "to_vext l = take ?h ?vals"
    using Load_pow2 [OF lenl] by blast
  obtain h where h: "Load ?h (drop ?h ?vals) = Some h" "is_Vec ?h h"
      "to_vext h = take ?h (drop ?h ?vals)"
    using Load_pow2 [OF lenh] by blast
  have "Vec_init ?N xs = Some (VecN l h)"
    using l(1) h(1) not1 unfolding Vec_init_def by (simp only: half if_False Let_def option.case)
  moreover have "is_Vec ?N (VecN l h)" using l(2) h(2) half not1 Suc by simp
  moreover have "to_vext (VecN l h) = ?vals"
  proof -
    have "to_vext (VecN l h) = take ?h ?vals @ take ?h (drop ?h ?vals)" using l(3) h(3) by simp
    also have "\<dots> = take (?h + ?h) ?vals" by (simp add: take_add)
    also have "\<dots> = ?vals" using len N by simp
    finally show ?thesis .
  qed
  ultimately show ?thesis by (auto simp: memcpy_vals_eq)
qed

text \<open>
  Claim C10. For a width \<open>N\<close> that is a power of two, constructing \<open>Vec<N,T>\<close> from a list
  never reads past the array it loads from (the result is never \<open>None\<close>): lane \<open>i\<close> is the
  \<open>i\<close>-th listed value when there is one and 0 otherwise, and the values after the first \<open>N\<close>
  do not matter. With \<open>N = 1\<close> an empty list gives the lane 0 and any other list its first
  element.
\<close>

theorem Vec_init_lanes:
  assumes "N = 2 ^ k"
  shows "\<exists>v. Vec_init N xs = Some v \<and> is_Vec N v
           \<and> to_vext v = take N xs @ replicate (N - length xs) 0
           \<and> (\<forall>i < N. op_index N v (int i) = (if i < length xs then xs ! i else 0))
           \<and> Vec_init N (take N xs) = Some v"
proof -
  obtain v where v: "Vec_init N xs = Some v" "is_Vec N v"
      "to_vext v = take N xs @ replicate (N - length xs) 0"
    using Vec_init_pow2 [of k xs] assms by auto
  obtain w where w: "Vec_init N (take N xs) = Some w" "is_Vec N w"
      "to_vext w = take N (take N xs) @ replicate (N - length (take N xs)) 0"
    using Vec_init_pow2 [of k "take N xs"] assms by auto
  have "to_vext w = to_vext v" using v(3) w(3) by (auto simp: min_def)
  then have "w = v" using to_vec_to_vext [OF v(2)] to_vec_to_vext [OF w(2)] by simp
  moreover have "op_index N v (int i) = (if i < length xs then xs ! i else 0)" if "i < N" for i
    using op_index_to_vext [OF v(2), of "int i"] that v(3) by (auto simp: nth_append)
  ultimately show ?thesis using v w by auto
qed

theorem Vec_init_lanes_witness:
  "Vec_init 2 [5, 6, 7 :: int] = Some (VecN (Vec1 5) (Vec1 6))
   \<and> Vec_init 4 [5 :: int] = Some (VecN (VecN (Vec1 5) (Vec1 0)) (VecN (Vec1 0) (Vec1 0)))
   \<and> Vec_init 1 ([] :: int list) = Some (Vec1 0)
   \<and> Vec_init 1 [8, 9 :: int] = Some (Vec1 8)"
proof -
  have e: "(2::nat) = 2 ^ 1" "(4::nat) = 2 ^ 2" "(1::nat) = 2 ^ 0" by simp_all
  from Vec_init_lanes [OF e(1), of "[5, 6, 7 :: int]"]
  obtain v where v: "Vec_init 2 [5, 6, 7 :: int] = Some v" "to_vext v = [5, 6]" "is_Vec 2 v" by auto
  from v(3) v(2) have "v = VecN (Vec1 5) (Vec1 6)"
    using to_vec_to_vext [OF v(3)] by (simp add: to_vec.simps)
  moreover have "Vec_init 4 [5 :: int] = Some (VecN (VecN (Vec1 5) (Vec1 0)) (VecN (Vec1 0) (Vec1 0)))"
    by code_simp
  moreover have "Vec_init 1 ([] :: int list) = Some (Vec1 0)" "Vec_init 1 [8, 9 :: int] = Some (Vec1 8)"
    by (simp_all add: Vec_init_def)
  ultimately show ?thesis using v(1) by simp
qed

section \<open>Rounding division by 255 and approximate scaling\<close>

lemma div_bounds:
  fixes m k :: nat
  assumes "0 < k"
  shows "k * (m div k) \<le> m" and "m < k * (m div k) + k"
proof -
  have e: "k * (m div k) + m mod k = m" by (rule mult_div_mod_eq)
  have "m mod k < k" using assms by simp
  with e show "k * (m div k) \<le> m" and "m < k * (m div k) + k" by linarith+
qed

lemma round_div255: "round (real n / 255) = int ((n + 127) div 255)"
proof -
  define q where "q = (n + 127) div 255"
  have q: "255 * q \<le> n + 127" "n + 127 < 255 * q + 255"
    unfolding q_def by (rule div_bounds, simp)+
  have "510 * q \<le> 2 * n + 255" and "2 * n + 255 < 510 * Suc q"
    using q by simp_all
  then have "(2 * n + 255) div 510 = q"
    by (rule div_nat_eqI)
  moreover have "real n / 255 + 1 / 2 = real (2 * n + 255) / real 510" by simp
  then have "round (real n / 255) = \<lfloor>real (2 * n + 255) / real 510\<rfloor>"
    unfolding round_def by (simp only:)
  moreover have "\<lfloor>real (2 * n + 255) / real 510\<rfloor> = int ((2 * n + 255) div 510)"
    by (rule floor_divide_of_nat_eq)
  ultimately show ?thesis unfolding q_def by simp
qed


lemma unat_ucast_mod: "unat (ucast (w :: 'a::len word) :: 'b::len word) = unat w mod 2 ^ LENGTH('b)"
  by (simp add: unsigned_ucast_eq take_bit_eq_mod)

lemma unat_u8_le: "unat (u :: 8 word) \<le> 255"
  using unsigned_less [of u, where ?'a = nat] by simp

lemma approx_scale_scalar:
  fixes u v :: "8 word"
  shows "unat (ucast ((ucast u * ucast v + ucast u) div (256 :: 16 word)) :: 8 word)
         = (unat u * unat v + unat u) div 256"
proof -
  have u: "unat u \<le> 255" and v: "unat v \<le> 255" by (rule unat_u8_le)+
  have "unat u * unat v \<le> 255 * 255" using u v by (rule mult_le_mono)
  then have b: "unat u * unat v + unat u < 65536" using u by simp
  have uu: "unat (ucast u :: 16 word) = unat u" and vv: "unat (ucast v :: 16 word) = unat v"
    using u v by (simp_all add: unat_ucast_mod)
  have "unat ((ucast u * ucast v + ucast u) :: 16 word) = (unat u * unat v + unat u) mod 65536"
    by (simp add: unat_word_ariths uu vv mod_simps)
  then have s: "unat ((ucast u * ucast v + ucast u) :: 16 word) = unat u * unat v + unat u"
    using b by simp
  have "unat ((ucast u * ucast v + ucast u) div (256 :: 16 word)) = (unat u * unat v + unat u) div 256"
    by (simp add: unat_div s)
  moreover have "(unat u * unat v + unat u) div 256 < 256" using b by simp
  ultimately show ?thesis by (simp add: unat_ucast_mod)
qed

lemma approx_bound:
  fixes x y :: nat
  assumes "x \<le> 255" and "y \<le> 255"
  shows "\<bar>int ((x * y + x) div 256) - int ((x * y + 127) div 255)\<bar> \<le> 1"
proof -
  define p where "p = x * y"
  have p: "p \<le> 255 * x" unfolding p_def using assms by (simp add: mult.commute)
  define a where "a = (p + x) div 256"
  define d where "d = (p + 127) div 255"
  have a1: "256 * a \<le> p + x" and a2: "p + x < 256 * a + 256"
    unfolding a_def by (rule div_bounds, simp)+
  have d1: "255 * d \<le> p + 127" and d2: "p + 127 < 255 * d + 255"
    unfolding d_def by (rule div_bounds, simp)+
  have "a \<le> d + 1 \<and> d \<le> a + 1" using a1 a2 d1 d2 p assms(1) by linarith
  then show ?thesis unfolding a_def [symmetric] d_def [symmetric] p_def [symmetric] by linarith
qed


lemma div255_lane:
  assumes "is_Vec N x"
  shows "op_index N (div255 b N x) i = ucast ((op_index N x i + 127) div 255)"
proof -
  note s = is_Vec_splat [OF assms]
  have 1: "op_add b N x (splat N 127) = vmap2 (+) x (splat N 127)"
    using assms s by (rule op_add_vmap2)
  have i1: "is_Vec N (vmap2 (+) x (splat N (127 :: 16 word)))" using assms s by (rule is_Vec_vmap2)
  have 2: "op_div b N (vmap2 (+) x (splat N 127)) (splat N 255) = vmap2 (div) (vmap2 (+) x (splat N 127)) (splat N 255)"
    using i1 s by (rule op_div_vmap2)
  have i2: "is_Vec N (vmap2 (div) (vmap2 (+) x (splat N (127 :: 16 word))) (splat N 255))"
    using i1 s by (rule is_Vec_vmap2)
  show ?thesis
    unfolding div255_def 1 2 cast_vmap [OF i2]
    by (simp add: op_index_vmap op_index_vmap2 [OF i1 s] op_index_vmap2 [OF assms s]
        op_index_splat [OF assms])
qed

lemma approx_scale_lane:
  assumes x: "is_Vec N x" and y: "is_Vec N y"
  shows "op_index N (approx_scale b N x y) i =
         ucast ((ucast (op_index N x i) * ucast (op_index N y i) + ucast (op_index N x i)) div (256 :: 16 word))"
proof -
  let ?X = "vmap ucast x :: 16 word Vec" and ?Y = "vmap ucast y :: 16 word Vec"
  have X: "is_Vec N ?X" and Y: "is_Vec N ?Y" using x y by (simp_all add: is_Vec_vmap)
  note s = is_Vec_splat [OF x]
  let ?m = "vmap2 (*) ?X ?Y"
  have m: "op_mul b N ?X ?Y = ?m" using X Y by (rule op_mul_vmap2)
  have im: "is_Vec N ?m" using X Y by (rule is_Vec_vmap2)
  let ?a = "vmap2 (+) ?m ?X"
  have a: "op_add b N ?m ?X = ?a" using im X by (rule op_add_vmap2)
  have ia: "is_Vec N ?a" using im X by (rule is_Vec_vmap2)
  let ?d = "vmap2 (div) ?a (splat N 256)"
  have d: "op_div b N ?a (splat N 256) = ?d" using ia s by (rule op_div_vmap2)
  have id: "is_Vec N ?d" using ia s by (rule is_Vec_vmap2)
  have "approx_scale b N x y = vmap ucast ?d"
    unfolding approx_scale_def Let_def cast_vmap [OF x] cast_vmap [OF y] m a d cast_vmap [OF id] ..
  then show ?thesis
    by (simp add: op_index_vmap op_index_vmap2 [OF ia s] op_index_vmap2 [OF im X]
        op_index_vmap2 [OF X Y] op_index_splat [OF x])
qed


lemma div255_scalar:
  fixes w :: "16 word"
  shows "unat (ucast (((w + 127) div 255)) :: 8 word) = ((unat w + 127) mod 65536) div 255 mod 256"
  by (simp add: unat_ucast_mod unat_div unat_word_ariths)

lemma div255_in_range:
  fixes n :: nat
  assumes "n \<le> 65152"
  shows "((n + 127) mod 65536) div 255 mod 256 = (n + 127) div 255"
proof -
  have "(n + 127) div 255 \<le> 65279 div 255" using assms by (intro div_le_mono) simp
  then have "(n + 127) div 255 < 256" by simp
  moreover have "n + 127 < 65536" using assms by simp
  ultimately show ?thesis by simp
qed

text \<open>
  Claim C3, as the code has it. \<open>x + 127\<close> is computed in 16 bits and the quotient is
  converted to 8 bits, so for every 16-bit lane \<open>x\<close> the result lane is
  \<open>((x + 127) mod 65536) div 255 mod 256\<close>. For \<open>x \<le> 65152\<close>, which includes every product
  of two 8-bit values, that is \<open>(x + 127) div 255\<close>, the nearest integer to \<open>x / 255\<close>.
\<close>

theorem div255_lanes:
  assumes "is_Vec N x"
  shows "unat (op_index N (div255 b N x) i)
           = ((unat (op_index N x i) + 127) mod 65536) div 255 mod 256
       \<and> (unat (op_index N x i) \<le> 65152 \<longrightarrow>
            unat (op_index N (div255 b N x) i) = (unat (op_index N x i) + 127) div 255
          \<and> int (unat (op_index N (div255 b N x) i)) = round (real (unat (op_index N x i)) / 255))"
proof -
  let ?n = "unat (op_index N x i)"
  have lane: "unat (op_index N (div255 b N x) i) = ((?n + 127) mod 65536) div 255 mod 256"
    by (simp only: div255_lane [OF assms] div255_scalar)
  have r: "int ((?n + 127) div 255) = round (real ?n / 255)"
    by (rule round_div255 [symmetric])
  have "unat (op_index N (div255 b N x) i) = (?n + 127) div 255" if "?n \<le> 65152"
    using lane div255_in_range [OF that] by simp
  then show ?thesis using lane r by auto
qed

theorem div255_lanes_witness:
  "unat (op_index 2 (div255 build_vext 2 (VecN (Vec1 382) (Vec1 65025))) 0) = 1
   \<and> unat (op_index 2 (div255 build_vext 2 (VecN (Vec1 382) (Vec1 65025))) 1) = 255
   \<and> unat (op_index 2 (div255 build_portable 2 (VecN (Vec1 65152) (Vec1 65408))) 0) = 255
   \<and> unat (op_index 2 (div255 build_portable 2 (VecN (Vec1 65152) (Vec1 65408))) 1) = 1"
  using div255_lanes [of 2 "VecN (Vec1 382) (Vec1 65025)" build_vext 0]
    div255_lanes [of 2 "VecN (Vec1 382) (Vec1 65025)" build_vext 1]
    div255_lanes [of 2 "VecN (Vec1 65152) (Vec1 65408)" build_portable 0]
    div255_lanes [of 2 "VecN (Vec1 65152) (Vec1 65408)" build_portable 1]
  by simp

text \<open>
  Over the full 16-bit domain the claim that the lane is \<open>(x + 127) div 255\<close> fails: at
  \<open>x = 65535\<close> the sum wraps to 126 and the lane is 0, not 257.
\<close>

theorem div255_full_domain_counterexample:
  "unat (op_index 1 (div255 build_portable 1 (Vec1 65535)) 0) = 0
   \<and> (unat (65535 :: 16 word) + 127) div 255 = 257
   \<and> unat (op_index 1 (div255 build_portable 1 (Vec1 65535)) 0) \<noteq> (unat (65535 :: 16 word) + 127) div 255
   \<and> unat (op_index 1 (div255 build_vext 1 (Vec1 65535)) 0) \<noteq> (unat (65535 :: 16 word) + 127) div 255"
  by (simp add: div255_lane)

text \<open>
  Claim C4. For all 8-bit lanes \<open>x\<close>, \<open>y\<close>: the lane of \<open>approx_scale(x, y)\<close> is
  \<open>(x*y + x) div 256\<close>; it differs by at most 1 from the lane of \<open>div255\<close> of the 16-bit
  product; it is \<open>y\<close> when \<open>x\<close> is 255, \<open>x\<close> when \<open>y\<close> is 255, and 0 when \<open>x\<close> or \<open>y\<close> is 0.
\<close>

theorem approx_scale_lanes:
  assumes "is_Vec N x" and "is_Vec N y"
  shows "unat (op_index N (approx_scale b N x y) i)
           = (unat (op_index N x i) * unat (op_index N y i) + unat (op_index N x i)) div 256
       \<and> \<bar>int (unat (op_index N (approx_scale b N x y) i))
            - int (unat (op_index N (div255 b N (op_mul b N (cast b N x) (cast b N y))) i))\<bar> \<le> 1
       \<and> (op_index N x i = 255 \<longrightarrow> op_index N (approx_scale b N x y) i = op_index N y i)
       \<and> (op_index N x i = 0 \<longrightarrow> op_index N (approx_scale b N x y) i = 0)
       \<and> (op_index N y i = 255 \<longrightarrow> op_index N (approx_scale b N x y) i = op_index N x i)
       \<and> (op_index N y i = 0 \<longrightarrow> op_index N (approx_scale b N x y) i = 0)"
proof -
  let ?u = "op_index N x i" and ?v = "op_index N y i"
  let ?a = "op_index N (approx_scale b N x y) i"
  let ?X = "vmap ucast x :: 16 word Vec" and ?Y = "vmap ucast y :: 16 word Vec"
  have u: "unat ?u \<le> 255" and v: "unat ?v \<le> 255" by (rule unat_u8_le)+
  have a: "unat ?a = (unat ?u * unat ?v + unat ?u) div 256"
    by (simp only: approx_scale_lane [OF assms] approx_scale_scalar)
  have X: "is_Vec N ?X" and Y: "is_Vec N ?Y" using assms by (simp_all add: is_Vec_vmap)
  have prod: "op_mul b N (cast b N x) (cast b N y) = vmap2 (*) ?X ?Y"
    by (simp only: cast_vmap [OF assms(1)] cast_vmap [OF assms(2)] op_mul_vmap2 [OF X Y])
  have "unat u * unat ?v \<le> 255 * 255" if "unat u \<le> 255" for u :: "8 word"
    using that v by (rule mult_le_mono)
  then have le: "unat ?u * unat ?v \<le> 65025" using u by simp
  have "unat (op_index N (vmap2 (*) ?X ?Y) i) = (unat ?u * unat ?v) mod 65536"
    using u v by (simp add: op_index_vmap2 [OF X Y] op_index_vmap unat_word_ariths unat_ucast_mod)
  then have p: "unat (op_index N (vmap2 (*) ?X ?Y) i) = unat ?u * unat ?v" using le by simp
  have "unat (op_index N (div255 b N (vmap2 (*) ?X ?Y)) i)
        = ((unat ?u * unat ?v + 127) mod 65536) div 255 mod 256"
    by (simp only: div255_lane [OF is_Vec_vmap2 [OF X Y]] div255_scalar p)
  also have "\<dots> = (unat ?u * unat ?v + 127) div 255"
    using le by (intro div255_in_range) simp
  finally have d: "unat (op_index N (div255 b N (op_mul b N (cast b N x) (cast b N y))) i)
        = (unat ?u * unat ?v + 127) div 255"
    by (simp only: prod)
  have bound: "\<bar>int (unat ?a) - int (unat (op_index N (div255 b N (op_mul b N (cast b N x) (cast b N y))) i))\<bar> \<le> 1"
    unfolding a d using u v by (rule approx_bound)
  have x255: "unat ?a = unat ?v" if "?u = 255"
  proof -
    have "unat ?a = (255 * unat ?v + 255) div 256" using a that by simp
    also have "\<dots> = unat ?v" by (rule div_nat_eqI) (use v in simp_all)
    finally show ?thesis .
  qed
  have y255: "unat ?a = unat ?u" if "?v = 255"
  proof -
    have "unat ?a = (unat ?u * 255 + unat ?u) div 256" using a that by simp
    also have "unat ?u * 255 + unat ?u = 256 * unat ?u" by simp
    finally show ?thesis by simp
  qed
  have x0: "unat ?a = 0" if "?u = 0" using a that by simp
  have y0: "unat ?a = 0" if "?v = 0" using a that u by simp
  show ?thesis
    using a bound x255 y255 x0 y0 by (auto simp: unat_0_iff dest: word_unat_eq_iff [THEN iffD2])
qed

theorem approx_scale_lanes_witness:
  "op_index 2 (approx_scale build_vext 2 (VecN (Vec1 255) (Vec1 0)) (VecN (Vec1 37) (Vec1 200))) 0 = 37
   \<and> op_index 2 (approx_scale build_vext 2 (VecN (Vec1 255) (Vec1 0)) (VecN (Vec1 37) (Vec1 200))) 1 = 0
   \<and> unat (op_index 2 (approx_scale build_portable 2 (VecN (Vec1 100) (Vec1 7)) (VecN (Vec1 100) (Vec1 255))) 0) = 39
   \<and> op_index 2 (approx_scale build_portable 2 (VecN (Vec1 100) (Vec1 7)) (VecN (Vec1 100) (Vec1 255))) 1 = 7"
  using approx_scale_lanes [of 2 "VecN (Vec1 255) (Vec1 0)" "VecN (Vec1 37) (Vec1 200)" build_vext 0]
    approx_scale_lanes [of 2 "VecN (Vec1 255) (Vec1 0)" "VecN (Vec1 37) (Vec1 200)" build_vext 1]
    approx_scale_lanes [of 2 "VecN (Vec1 100) (Vec1 7)" "VecN (Vec1 100) (Vec1 255)" build_portable 0]
    approx_scale_lanes [of 2 "VecN (Vec1 100) (Vec1 7)" "VecN (Vec1 100) (Vec1 255)" build_portable 1]
  by simp

section \<open>Selection and half floats\<close>

lemma to_vec_lanes:
  assumes "is_Vec N c" and "length xs = N"
  shows "is_Vec N (to_vec N xs)" and "to_vext (to_vec N xs) = xs"
    and "0 \<le> i \<Longrightarrow> i < int N \<Longrightarrow> op_index N (to_vec N xs) i = xs ! nat i"
proof -
  obtain k where k: "N = 2 ^ k" using is_Vec_pow2 [OF assms(1)] by blast
  show v: "is_Vec N (to_vec N xs)" and l: "to_vext (to_vec N xs) = xs"
    using to_vec_pow2 [of xs k] assms(2) k by simp_all
  show "op_index N (to_vec N xs) i = xs ! nat i" if "0 \<le> i" "i < int N"
    using op_index_to_vext [OF v that] l by simp
qed

lemma op_index_in_set: "op_index N v i \<in> set_Vec v"
  by (induction v arbitrary: N i) auto

lemma set_Vec_lane:
  "is_Vec N v \<Longrightarrow> a \<in> set_Vec v \<Longrightarrow> \<exists>i. 0 \<le> i \<and> i < int N \<and> op_index N v i = a"
proof (induction v arbitrary: N)
  case (Vec1 x)
  then show ?case by auto
next
  case (VecN l h)
  from VecN.prems have l: "is_Vec (N div 2) l" and h: "is_Vec (N div 2) h" and N: "1 < N" "even N"
    by auto
  from VecN.prems(2) consider "a \<in> set_Vec l" | "a \<in> set_Vec h" by auto
  then show ?case
  proof cases
    case 1
    then obtain i where i: "0 \<le> i" "i < int (N div 2)" "op_index (N div 2) l i = a"
      using VecN.IH(1) [OF l] by blast
    then have "0 \<le> i \<and> i < int N \<and> op_index N (VecN l h) i = a" by auto
    then show ?thesis by blast
  next
    case 2
    then obtain i where i: "0 \<le> i" "i < int (N div 2)" "op_index (N div 2) h i = a"
      using VecN.IH(2) [OF h] by blast
    then have "0 \<le> i + int (N div 2) \<and> i + int (N div 2) < int N
        \<and> op_index N (VecN l h) (i + int (N div 2)) = a"
      using N by auto
    then show ?thesis by blast
  qed
qed

lemma bitsel_mask: "is_mask_lane c \<Longrightarrow> bitsel c t e = (if c = - 1 then t else e)"
  by (auto simp: is_mask_lane_def bitsel_def)

lemma bit_select_lanes:
  fixes c t e :: "'a::len word Vec"
  assumes c: "is_Vec N c" and t: "is_Vec N t" and e: "is_Vec N e"
  shows "is_Vec N (op_or b N (op_and b N c t) (op_and b N (op_bnot b N c) e))"
    and "op_index N (op_or b N (op_and b N c t) (op_and b N (op_bnot b N c) e)) i
         = bitsel (op_index N c i) (op_index N t i) (op_index N e i)"
proof -
  have n: "is_Vec N (vmap NOT c)" using c by (rule is_Vec_vmap)
  have ct: "is_Vec N (vmap2 (AND) c t)" using c t by (rule is_Vec_vmap2)
  have ne: "is_Vec N (vmap2 (AND) (vmap NOT c) e)" using n e by (rule is_Vec_vmap2)
  have eq: "op_or b N (op_and b N c t) (op_and b N (op_bnot b N c) e)
        = vmap2 (OR) (vmap2 (AND) c t) (vmap2 (AND) (vmap NOT c) e)"
    by (simp only: op_bnot_vmap [OF c] op_and_vmap2 [OF c t] op_and_vmap2 [OF n e]
        op_or_vmap2 [OF ct ne])
  show "is_Vec N (op_or b N (op_and b N c t) (op_and b N (op_bnot b N c) e))"
    unfolding eq using ct ne by (rule is_Vec_vmap2)
  show "op_index N (op_or b N (op_and b N c t) (op_and b N (op_bnot b N c) e)) i
         = bitsel (op_index N c i) (op_index N t i) (op_index N e i)"
    unfolding eq
    by (simp add: op_index_vmap2 [OF ct ne] op_index_vmap2 [OF c t] op_index_vmap2 [OF n e]
        op_index_vmap bitsel_def)
qed

lemma blendv_lanes:
  fixes c t e :: "'a::len word Vec"
  assumes c: "is_Vec N c" and t: "is_Vec N t" and e: "is_Vec N e"
  shows "is_Vec N (to_vec N (mm_blendv_ps (to_vext e) (to_vext t) (to_vext c)))"
    and "0 \<le> i \<Longrightarrow> i < int N \<Longrightarrow>
         op_index N (to_vec N (mm_blendv_ps (to_vext e) (to_vext t) (to_vext c))) i
         = (if bit (op_index N c i) 31 then op_index N t i else op_index N e i)"
proof -
  let ?xs = "mm_blendv_ps (to_vext e) (to_vext t) (to_vext c)"
  have len: "length ?xs = N"
    by (simp add: mm_blendv_ps_def length_to_vext [OF c] length_to_vext [OF t] length_to_vext [OF e])
  show "is_Vec N (to_vec N ?xs)" using c len by (rule to_vec_lanes(1))
  show "op_index N (to_vec N ?xs) i
         = (if bit (op_index N c i) 31 then op_index N t i else op_index N e i)"
    if i: "0 \<le> i" "i < int N"
  proof -
    have n: "nat i < N" using i by simp
    have "op_index N (to_vec N ?xs) i = ?xs ! nat i" using c len i by (rule to_vec_lanes(3))
    also have "\<dots> = (if bit (to_vext c ! nat i) 31 then to_vext t ! nat i else to_vext e ! nat i)"
      using n by (simp add: mm_blendv_ps_def length_to_vext [OF c] length_to_vext [OF t]
          length_to_vext [OF e])
    finally show ?thesis
      by (simp only: op_index_to_vext [OF c i] op_index_to_vext [OF t i] op_index_to_vext [OF e i])
  qed
qed

lemma vbsl_lanes:
  fixes c t e :: "'a::len word Vec"
  assumes c: "is_Vec N c" and t: "is_Vec N t" and e: "is_Vec N e"
  shows "is_Vec N (to_vec N (vbslq_f32 (to_vext c) (to_vext t) (to_vext e)))"
    and "0 \<le> i \<Longrightarrow> i < int N \<Longrightarrow>
         op_index N (to_vec N (vbslq_f32 (to_vext c) (to_vext t) (to_vext e))) i
         = bitsel (op_index N c i) (op_index N t i) (op_index N e i)"
proof -
  let ?xs = "vbslq_f32 (to_vext c) (to_vext t) (to_vext e)"
  have len: "length ?xs = N"
    by (simp add: vbslq_f32_def length_to_vext [OF c] length_to_vext [OF t] length_to_vext [OF e])
  show "is_Vec N (to_vec N ?xs)" using c len by (rule to_vec_lanes(1))
  show "op_index N (to_vec N ?xs) i = bitsel (op_index N c i) (op_index N t i) (op_index N e i)"
    if i: "0 \<le> i" "i < int N"
  proof -
    have n: "nat i < N" using i by simp
    have "op_index N (to_vec N ?xs) i = ?xs ! nat i" using c len i by (rule to_vec_lanes(3))
    also have "\<dots> = bitsel (to_vext c ! nat i) (to_vext t ! nat i) (to_vext e ! nat i)"
      using n by (simp add: vbslq_f32_def bitsel_def length_to_vext [OF c] length_to_vext [OF t]
          length_to_vext [OF e])
    finally show ?thesis
      by (simp only: op_index_to_vext [OF c i] op_index_to_vext [OF t i] op_index_to_vext [OF e i])
  qed
qed

lemma bit31_mask:
  fixes c :: "'a::len word"
  assumes "is_mask_lane c" and "LENGTH('a) = 32"
  shows "bit c 31 \<longleftrightarrow> c = - 1"
  using assms by (auto simp: is_mask_lane_def bit_simps)

lemma if_then_else_select:
  fixes c t e :: "'a::len word Vec"
  assumes "is_Vec N c" and "is_Vec N t" and "is_Vec N e" and "\<forall>m \<in> set_Vec c. is_mask_lane m"
  shows "is_Vec N (if_then_else b N c t e)
       \<and> (\<forall>i. 0 \<le> i \<and> i < int N \<longrightarrow>
            op_index N (if_then_else b N c t e) i
            = (if op_index N c i = - 1 then op_index N t i else op_index N e i))"
  using assms
proof (induction c arbitrary: N t e)
  case (Vec1 m)
  from Vec1.prems obtain tv ev where te: "t = Vec1 tv" "e = Vec1 ev" and N: "N = 1"
    by (cases t; cases e) auto
  have v: "is_Vec 1 (Vec1 m)" "is_Vec 1 (Vec1 tv)" "is_Vec 1 (Vec1 ev)" by simp_all
  have m: "is_mask_lane m" using Vec1.prems(4) by simp
  show ?case
    using bit_select_lanes [OF v, of b] bitsel_mask [OF m]
    by (simp add: te N)
next
  case (VecN cl ch)
  from VecN.prems obtain tl' th' el eh where te: "t = VecN tl' th'" "e = VecN el eh"
    by (cases t; cases e) auto
  note c = VecN.prems(1) and t = VecN.prems(2) and e = VecN.prems(3)
  have pure: "is_mask_lane (op_index N (VecN cl ch) i)" for i
    using VecN.prems(4) op_index_in_set [of N "VecN cl ch" i] by blast
  have halves: "is_Vec (N div 2) cl" "is_Vec (N div 2) ch" "is_Vec (N div 2) tl'"
    "is_Vec (N div 2) th'" "is_Vec (N div 2) el" "is_Vec (N div 2) eh"
    using c t e te by auto
  have purel: "\<forall>m \<in> set_Vec cl. is_mask_lane m" and pureh: "\<forall>m \<in> set_Vec ch. is_mask_lane m"
    using VecN.prems(4) by auto
  note IHl = VecN.IH(1) [OF halves(1,3,5) purel] and IHh = VecN.IH(2) [OF halves(2,4,6) pureh]
  consider (blend) "(avx b \<and> N = 8 \<or> sse4_1 b \<and> N = 4) \<and> LENGTH('a) = 32"
    | (vbsl) "\<not> ((avx b \<and> N = 8 \<or> sse4_1 b \<and> N = 4) \<and> LENGTH('a) = 32)"
        "arm_neon b \<and> N = 4 \<and> LENGTH('a) = 32"
    | (rec) "\<not> ((avx b \<and> N = 8 \<or> sse4_1 b \<and> N = 4) \<and> LENGTH('a) = 32)"
        "\<not> (arm_neon b \<and> N = 4 \<and> LENGTH('a) = 32)" "N > 4"
    | (bits) "\<not> ((avx b \<and> N = 8 \<or> sse4_1 b \<and> N = 4) \<and> LENGTH('a) = 32)"
        "\<not> (arm_neon b \<and> N = 4 \<and> LENGTH('a) = 32)" "\<not> N > 4"
    by blast
  then show ?case
  proof cases
    case blend
    then have eq: "if_then_else b N (VecN cl ch) t e
        = to_vec N (mm_blendv_ps (to_vext e) (to_vext t) (to_vext (VecN cl ch)))"
      by (auto simp: te Let_def)
    have len: "LENGTH('a) = 32" using blend by simp
    show ?thesis
      unfolding eq using blendv_lanes [OF c t e] bit31_mask [OF pure len] by simp
  next
    case vbsl
    then have eq: "if_then_else b N (VecN cl ch) t e
        = to_vec N (vbslq_f32 (to_vext (VecN cl ch)) (to_vext t) (to_vext e))"
      by (auto simp: te Let_def)
    show ?thesis
      unfolding eq using vbsl_lanes [OF c t e] bitsel_mask [OF pure] by simp
  next
    case rec
    then have eq: "if_then_else b N (VecN cl ch) t e
        = VecN (if_then_else b (N div 2) cl tl' el) (if_then_else b (N div 2) ch th' eh)"
      by (auto simp: te Let_def join_def)
    have "is_Vec N (if_then_else b N (VecN cl ch) t e)"
      unfolding eq using IHl IHh c by simp
    moreover have "op_index N (if_then_else b N (VecN cl ch) t e) i
            = (if op_index N (VecN cl ch) i = - 1 then op_index N t i else op_index N e i)"
      if i: "0 \<le> i" "i < int N" for i
    proof (cases "i < int (N div 2)")
      case True
      then show ?thesis unfolding eq using IHl i by (simp add: te)
    next
      case False
      from c have "even N" by simp
      then have "i - int (N div 2) < int (N div 2)" using i by auto
      then show ?thesis unfolding eq using IHh i False by (simp add: te)
    qed
    ultimately show ?thesis by blast
  next
    case bits
    then have eq: "if_then_else b N (VecN cl ch) t e
        = op_or b N (op_and b N (VecN cl ch) t) (op_and b N (op_bnot b N (VecN cl ch)) e)"
      by (auto simp: te Let_def)
    show ?thesis
      unfolding eq using bit_select_lanes [OF c t e, of b] bitsel_mask [OF pure] by simp
  qed
qed

section \<open>Width and lanes of every operator\<close>





lemma is_Vec_op_mul: "is_Vec N x \<Longrightarrow> is_Vec N y \<Longrightarrow> is_Vec N (op_mul b N x y)"
  by (simp add: op_mul_vmap2 is_Vec_vmap2)

lemma op_index_op_mul:
  "is_Vec N x \<Longrightarrow> is_Vec N y \<Longrightarrow> op_index N (op_mul b N x y) i = (*) (op_index N x i) (op_index N y i)"
  by (simp add: op_mul_vmap2 op_index_vmap2)

lemma is_Vec_op_div: "is_Vec N x \<Longrightarrow> is_Vec N y \<Longrightarrow> is_Vec N (op_div b N x y)"
  by (simp add: op_div_vmap2 is_Vec_vmap2)

lemma op_index_op_div:
  "is_Vec N x \<Longrightarrow> is_Vec N y \<Longrightarrow> op_index N (op_div b N x y) i = (div) (op_index N x i) (op_index N y i)"
  by (simp add: op_div_vmap2 op_index_vmap2)





lemma is_Vec_op_or: "is_Vec N x \<Longrightarrow> is_Vec N y \<Longrightarrow> is_Vec N (op_or b N x y)"
  by (simp add: op_or_vmap2 is_Vec_vmap2)

lemma op_index_op_or:
  "is_Vec N x \<Longrightarrow> is_Vec N y \<Longrightarrow> op_index N (op_or b N x y) i = (OR) (op_index N x i) (op_index N y i)"
  by (simp add: op_or_vmap2 op_index_vmap2)

lemma is_Vec_op_eq: "is_Vec N x \<Longrightarrow> is_Vec N y \<Longrightarrow> is_Vec N (op_eq b N x y)"
  by (simp add: op_eq_vmap2 is_Vec_vmap2)

lemma op_index_op_eq:
  "is_Vec N x \<Longrightarrow> is_Vec N y \<Longrightarrow>
   op_index N (op_eq b N x y) i = (if op_index N x i = op_index N y i then - 1 else 0)"
  by (simp add: op_eq_vmap2 op_index_vmap2)

lemma op_eq_mask:
  assumes "is_Vec N x" and "is_Vec N y"
  shows "\<forall>m \<in> set_Vec (op_eq b N x y :: 'm::len word Vec). is_mask_lane m"
proof
  fix m :: "'m word" assume "m \<in> set_Vec (op_eq b N x y)"
  then obtain i where "op_index N (op_eq b N x y) i = m"
    using set_Vec_lane [OF is_Vec_op_eq [OF assms]] by blast
  then show "is_mask_lane m"
    using op_index_op_eq [OF assms, of b i, where ?'b = 'm] by (auto simp: is_mask_lane_def split: if_splits)
qed

lemma is_Vec_op_ne: "is_Vec N x \<Longrightarrow> is_Vec N y \<Longrightarrow> is_Vec N (op_ne b N x y)"
  by (simp add: op_ne_vmap2 is_Vec_vmap2)

lemma op_index_op_ne:
  "is_Vec N x \<Longrightarrow> is_Vec N y \<Longrightarrow>
   op_index N (op_ne b N x y) i = (if op_index N x i \<noteq> op_index N y i then - 1 else 0)"
  by (simp add: op_ne_vmap2 op_index_vmap2)

lemma op_ne_mask:
  assumes "is_Vec N x" and "is_Vec N y"
  shows "\<forall>m \<in> set_Vec (op_ne b N x y :: 'm::len word Vec). is_mask_lane m"
proof
  fix m :: "'m word" assume "m \<in> set_Vec (op_ne b N x y)"
  then obtain i where "op_index N (op_ne b N x y) i = m"
    using set_Vec_lane [OF is_Vec_op_ne [OF assms]] by blast
  then show "is_mask_lane m"
    using op_index_op_ne [OF assms, of b i, where ?'b = 'm] by (auto simp: is_mask_lane_def split: if_splits)
qed

lemma is_Vec_op_le: "is_Vec N x \<Longrightarrow> is_Vec N y \<Longrightarrow> is_Vec N (op_le b N x y)"
  by (simp add: op_le_vmap2 is_Vec_vmap2)

lemma op_index_op_le:
  "is_Vec N x \<Longrightarrow> is_Vec N y \<Longrightarrow>
   op_index N (op_le b N x y) i = (if op_index N x i \<le> op_index N y i then - 1 else 0)"
  by (simp add: op_le_vmap2 op_index_vmap2)

lemma op_le_mask:
  assumes "is_Vec N x" and "is_Vec N y"
  shows "\<forall>m \<in> set_Vec (op_le b N x y :: 'm::len word Vec). is_mask_lane m"
proof
  fix m :: "'m word" assume "m \<in> set_Vec (op_le b N x y)"
  then obtain i where "op_index N (op_le b N x y) i = m"
    using set_Vec_lane [OF is_Vec_op_le [OF assms]] by blast
  then show "is_mask_lane m"
    using op_index_op_le [OF assms, of b i, where ?'b = 'm] by (auto simp: is_mask_lane_def split: if_splits)
qed

lemma is_Vec_op_ge: "is_Vec N x \<Longrightarrow> is_Vec N y \<Longrightarrow> is_Vec N (op_ge b N x y)"
  by (simp add: op_ge_vmap2 is_Vec_vmap2)

lemma op_index_op_ge:
  "is_Vec N x \<Longrightarrow> is_Vec N y \<Longrightarrow>
   op_index N (op_ge b N x y) i = (if op_index N x i \<ge> op_index N y i then - 1 else 0)"
  by (simp add: op_ge_vmap2 op_index_vmap2)

lemma op_ge_mask:
  assumes "is_Vec N x" and "is_Vec N y"
  shows "\<forall>m \<in> set_Vec (op_ge b N x y :: 'm::len word Vec). is_mask_lane m"
proof
  fix m :: "'m word" assume "m \<in> set_Vec (op_ge b N x y)"
  then obtain i where "op_index N (op_ge b N x y) i = m"
    using set_Vec_lane [OF is_Vec_op_ge [OF assms]] by blast
  then show "is_mask_lane m"
    using op_index_op_ge [OF assms, of b i, where ?'b = 'm] by (auto simp: is_mask_lane_def split: if_splits)
qed




lemma is_Vec_op_gt: "is_Vec N x \<Longrightarrow> is_Vec N y \<Longrightarrow> is_Vec N (op_gt b N x y)"
  by (simp add: op_gt_vmap2 is_Vec_vmap2)

lemma op_index_op_gt:
  "is_Vec N x \<Longrightarrow> is_Vec N y \<Longrightarrow>
   op_index N (op_gt b N x y) i = (if op_index N x i > op_index N y i then - 1 else 0)"
  by (simp add: op_gt_vmap2 op_index_vmap2)

lemma op_gt_mask:
  assumes "is_Vec N x" and "is_Vec N y"
  shows "\<forall>m \<in> set_Vec (op_gt b N x y :: 'm::len word Vec). is_mask_lane m"
proof
  fix m :: "'m word" assume "m \<in> set_Vec (op_gt b N x y)"
  then obtain i where "op_index N (op_gt b N x y) i = m"
    using set_Vec_lane [OF is_Vec_op_gt [OF assms]] by blast
  then show "is_mask_lane m"
    using op_index_op_gt [OF assms, of b i, where ?'b = 'm] by (auto simp: is_mask_lane_def split: if_splits)
qed

lemma is_Vec_op_neg: "is_Vec N x \<Longrightarrow> is_Vec N (op_neg b N x)"
  by (simp add: op_neg_vmap is_Vec_vmap)

lemma op_index_op_neg: "is_Vec N x \<Longrightarrow> op_index N (op_neg b N x) i = uminus (op_index N x i)"
  by (simp add: op_neg_vmap op_index_vmap)

lemma is_Vec_op_bnot: "is_Vec N x \<Longrightarrow> is_Vec N (op_bnot b N x)"
  by (simp add: op_bnot_vmap is_Vec_vmap)

lemma op_index_op_bnot: "is_Vec N x \<Longrightarrow> op_index N (op_bnot b N x) i = NOT (op_index N x i)"
  by (simp add: op_bnot_vmap op_index_vmap)






































text \<open>
  Claim C5. For every width, every build and every lane width, when each lane of \<open>cond\<close> is
  all bits set or all bits clear, lane \<open>i\<close> of \<open>if_then_else(cond, t, e)\<close> is the bit pattern
  of \<open>t[i]\<close> where \<open>cond[i]\<close> is all ones and the bit pattern of \<open>e[i]\<close> where it is zero,
  whatever the patterns are: through the blend instructions, the recursion and the bit
  identity alike.
\<close>

theorem if_then_else_lanes:
  fixes cond t e :: "'a::len word Vec"
  assumes "is_Vec N cond" and "is_Vec N t" and "is_Vec N e"
    and "\<forall>j. 0 \<le> j \<and> j < int N \<longrightarrow> is_mask_lane (op_index N cond j)"
  shows "is_Vec N (if_then_else b N cond t e)
       \<and> (\<forall>i. 0 \<le> i \<and> i < int N \<longrightarrow>
            op_index N (if_then_else b N cond t e) i
            = (if op_index N cond i = - 1 then op_index N t i else op_index N e i))"
proof -
  have "\<forall>m \<in> set_Vec cond. is_mask_lane m"
  proof
    fix m assume "m \<in> set_Vec cond"
    then obtain j where "0 \<le> j" "j < int N" "op_index N cond j = m"
      using set_Vec_lane [OF assms(1)] by blast
    then show "is_mask_lane m" using assms(4) by blast
  qed
  then show ?thesis using assms(1-3) by (rule if_then_else_select [rotated 3])
qed

theorem if_then_else_lanes_witness:
  "op_index 4 (if_then_else build_sse4_1 4
      (VecN (VecN (Vec1 (- 1)) (Vec1 0)) (VecN (Vec1 0) (Vec1 (- 1))))
      (VecN (VecN (Vec1 0x7FC00001) (Vec1 0x80000000)) (VecN (Vec1 3) (Vec1 0x80000000)))
      (VecN (VecN (Vec1 5) (Vec1 0xFFC00002)) (VecN (Vec1 7) (Vec1 8)) :: 32 word Vec)) 0 = 0x7FC00001
 \<and> op_index 4 (if_then_else build_sse4_1 4
      (VecN (VecN (Vec1 (- 1)) (Vec1 0)) (VecN (Vec1 0) (Vec1 (- 1))))
      (VecN (VecN (Vec1 0x7FC00001) (Vec1 0x80000000)) (VecN (Vec1 3) (Vec1 0x80000000)))
      (VecN (VecN (Vec1 5) (Vec1 0xFFC00002)) (VecN (Vec1 7) (Vec1 8)) :: 32 word Vec)) 1 = 0xFFC00002
 \<and> op_index 4 (if_then_else build_sse4_1 4
      (VecN (VecN (Vec1 (- 1)) (Vec1 0)) (VecN (Vec1 0) (Vec1 (- 1))))
      (VecN (VecN (Vec1 0x7FC00001) (Vec1 0x80000000)) (VecN (Vec1 3) (Vec1 0x80000000)))
      (VecN (VecN (Vec1 5) (Vec1 0xFFC00002)) (VecN (Vec1 7) (Vec1 8)) :: 32 word Vec)) 3 = 0x80000000
 \<and> op_index 2 (if_then_else build_portable 2
      (VecN (Vec1 0) (Vec1 (- 1))) (VecN (Vec1 1) (Vec1 2)) (VecN (Vec1 3) (Vec1 4) :: 8 word Vec)) 0 = 3"
proof -
  let ?c = "VecN (VecN (Vec1 (- 1)) (Vec1 0)) (VecN (Vec1 0) (Vec1 (- 1))) :: 32 word Vec"
  let ?t = "VecN (VecN (Vec1 0x7FC00001) (Vec1 0x80000000)) (VecN (Vec1 3) (Vec1 0x80000000)) :: 32 word Vec"
  let ?e = "VecN (VecN (Vec1 5) (Vec1 0xFFC00002)) (VecN (Vec1 7) (Vec1 8)) :: 32 word Vec"
  have v: "is_Vec 4 ?c" "is_Vec 4 ?t" "is_Vec 4 ?e" by simp_all
  have p: "\<forall>j. 0 \<le> j \<and> j < int 4 \<longrightarrow> is_mask_lane (op_index 4 ?c j)"
    by (simp add: is_mask_lane_def)
  note a = if_then_else_lanes [OF v p, of build_sse4_1, THEN conjunct2, rule_format]
  let ?c2 = "VecN (Vec1 0) (Vec1 (- 1)) :: 8 word Vec"
  let ?t2 = "VecN (Vec1 1) (Vec1 2) :: 8 word Vec"
  let ?e2 = "VecN (Vec1 3) (Vec1 4) :: 8 word Vec"
  have v2: "is_Vec 2 ?c2" "is_Vec 2 ?t2" "is_Vec 2 ?e2" by simp_all
  have p2: "\<forall>j. 0 \<le> j \<and> j < int 2 \<longrightarrow> is_mask_lane (op_index 2 ?c2 j)"
    by (simp add: is_mask_lane_def)
  note a2 = if_then_else_lanes [OF v2 p2, of build_portable, THEN conjunct2, rule_format]
  show ?thesis using a [of 0] a [of 1] a [of 3] a2 [of 0] by simp
qed





section \<open>Shuffles\<close>

lemma shuffle_portable:
  assumes x: "is_Vec N x" and len: "length Ix = 2 ^ k" and b: "\<not> clang_builtins b"
  shows "\<exists>v. shuffle b Ix N x = Some v \<and> is_Vec (length Ix) v
           \<and> to_vext v = map (op_index N x) Ix"
proof -
  obtain v where v: "Vec_init (2 ^ k) (map (op_index N x) Ix) = Some v" "is_Vec (2 ^ k) v"
      "to_vext v = take (2 ^ k) (map (op_index N x) Ix)
                   @ replicate (2 ^ k - length (map (op_index N x) Ix)) 0"
    using Vec_init_pow2 [of k "map (op_index N x) Ix"] by blast
  have "to_vext v = map (op_index N x) Ix" using v(3) len by simp
  then show ?thesis using v(1,2) b len by (simp add: shuffle_def)
qed

lemma shuffle_builtin:
  assumes x: "is_Vec N x" and len: "length Ix = 2 ^ k" and b: "clang_builtins b"
    and ix: "list_all (\<lambda>i. 0 \<le> i \<and> i < int N) Ix"
  shows "\<exists>v. shuffle b Ix N x = Some v \<and> is_Vec (length Ix) v
           \<and> to_vext v = map (op_index N x) Ix"
proof -
  let ?xs = "map (\<lambda>i. (to_vext x @ to_vext x) ! nat i) Ix"
  have ok: "list_all (\<lambda>i. 0 \<le> i \<and> i < 2 * int N) Ix"
    using ix by (induction Ix) auto
  have eq: "shuffle b Ix N x = Some (to_vec (length Ix) ?xs)"
    using b ok by (simp add: shuffle_def)
  have "length ?xs = 2 ^ k" using len by simp
  then have v: "is_Vec (2 ^ k) (to_vec (2 ^ k) ?xs)" "to_vext (to_vec (2 ^ k) ?xs) = ?xs"
    using to_vec_pow2 [of ?xs k] by simp_all
  have "(to_vext x @ to_vext x) ! nat i = op_index N x i" if "i \<in> set Ix" for i
  proof -
    from that ix have i: "0 \<le> i" "i < int N" by (simp_all add: list_all_iff)
    then have "nat i < length (to_vext x)" using length_to_vext [OF x] by simp
    then show ?thesis using op_index_to_vext [OF x i] by (simp add: nth_append)
  qed
  then have "?xs = map (op_index N x) Ix" by simp
  then show ?thesis using eq v len by simp
qed

text \<open>
  Claim C8, as the code has it. For a source of width \<open>N\<close> and an index list whose length
  is a power of two (the result must be a legal \<open>Vec\<close>), with every index in \<open>0..N-1\<close>
  where \<open>__builtin_shufflevector\<close> is used, \<open>shuffle\<close> yields a vector as wide as the list
  is long whose lane \<open>k\<close> is \<open>x[Ix[k]]\<close>. Indices may repeat or leave lanes out, and the
  result may be narrower than the source, as wide, or wider: the source's own example
  \<open>shuffle<2,1,2,1,2,1,2,1>(rgba)\<close> has eight lanes from four.
\<close>

theorem shuffle_lanes:
  assumes "is_Vec N x" and "length Ix = 2 ^ k"
    and "\<not> clang_builtins b \<or> list_all (\<lambda>i. 0 \<le> i \<and> i < int N) Ix"
  shows "\<exists>v. shuffle b Ix N x = Some v \<and> is_Vec (length Ix) v
           \<and> (\<forall>j < length Ix. op_index (length Ix) v (int j) = op_index N x (Ix ! j))"
proof -
  obtain v where v: "shuffle b Ix N x = Some v" "is_Vec (length Ix) v"
      "to_vext v = map (op_index N x) Ix"
    using shuffle_portable [OF assms(1,2)] shuffle_builtin [OF assms(1,2)] assms(3) by blast
  have "op_index (length Ix) v (int j) = op_index N x (Ix ! j)" if "j < length Ix" for j
    using op_index_to_vext [OF v(2), of "int j"] that v(3) by simp
  then show ?thesis using v(1,2) by blast
qed

theorem shuffle_lanes_witness:
  "shuffle build_portable [2, 1, 0, 3] 4 (VecN (VecN (Vec1 10) (Vec1 20)) (VecN (Vec1 30) (Vec1 (40 :: 8 word))))
     = Some (VecN (VecN (Vec1 30) (Vec1 20)) (VecN (Vec1 10) (Vec1 40)))
 \<and> shuffle build_vext [3, 3] 4 (VecN (VecN (Vec1 10) (Vec1 20)) (VecN (Vec1 30) (Vec1 (40 :: 8 word))))
     = Some (VecN (Vec1 40) (Vec1 40))"
proof -
  let ?x = "VecN (VecN (Vec1 10) (Vec1 20)) (VecN (Vec1 30) (Vec1 (40 :: 8 word)))"
  have x: "is_Vec 4 ?x" by simp
  have l: "length [2, 1, 0, 3 :: int] = 2 ^ 2" "length [3, 3 :: int] = 2 ^ 1" by simp_all
  have h: "\<not> clang_builtins build_portable \<or> list_all (\<lambda>i. 0 \<le> i \<and> i < int 4) [2, 1, 0, 3]"
    "\<not> clang_builtins build_vext \<or> list_all (\<lambda>i. 0 \<le> i \<and> i < int 4) [3, 3]"
    by (simp_all add: clang_builtins_def build_portable_def)
  obtain v where v: "shuffle build_portable [2, 1, 0, 3] 4 ?x = Some v"
      "is_Vec (length [2, 1, 0, 3 :: int]) v"
      "\<forall>j < length [2, 1, 0, 3 :: int]. op_index (length [2, 1, 0, 3 :: int]) v (int j)
          = op_index 4 ?x ([2, 1, 0, 3] ! j)"
    using shuffle_lanes [OF x l(1) h(1)] by blast
  obtain w where w: "shuffle build_vext [3, 3] 4 ?x = Some w"
      "is_Vec (length [3, 3 :: int]) w"
      "\<forall>j < length [3, 3 :: int]. op_index (length [3, 3 :: int]) w (int j)
          = op_index 4 ?x ([3, 3] ! j)"
    using shuffle_lanes [OF x l(2) h(2)] by blast
  have "shuffle build_portable [2, 1, 0, 3] 4 ?x
      = Some (VecN (VecN (Vec1 30) (Vec1 20)) (VecN (Vec1 10) (Vec1 40)))"
    by code_simp
  moreover have "shuffle build_vext [3, 3] 4 ?x = Some (VecN (Vec1 40) (Vec1 40))"
    by code_simp
  ultimately show ?thesis using v w by simp
qed

text \<open>
  The result is not bounded by the width of the source: eight indices on a four-lane
  vector give eight lanes, in either build.
\<close>

theorem shuffle_wider_counterexample:
  "is_Vec 4 (VecN (VecN (Vec1 10) (Vec1 20)) (VecN (Vec1 30) (Vec1 (40 :: 8 word))))
 \<and> shuffle build_portable [2, 1, 2, 1, 2, 1, 2, 1] 4
      (VecN (VecN (Vec1 10) (Vec1 20)) (VecN (Vec1 30) (Vec1 (40 :: 8 word))))
     = Some (VecN (VecN (VecN (Vec1 30) (Vec1 20)) (VecN (Vec1 30) (Vec1 20)))
                  (VecN (VecN (Vec1 30) (Vec1 20)) (VecN (Vec1 30) (Vec1 20))))
 \<and> shuffle build_vext [2, 1, 2, 1, 2, 1, 2, 1] 4
      (VecN (VecN (Vec1 10) (Vec1 20)) (VecN (Vec1 30) (Vec1 (40 :: 8 word))))
     = Some (VecN (VecN (VecN (Vec1 30) (Vec1 20)) (VecN (Vec1 30) (Vec1 20)))
                  (VecN (VecN (Vec1 30) (Vec1 20)) (VecN (Vec1 30) (Vec1 20))))
 \<and> is_Vec 8 (VecN (VecN (VecN (Vec1 30) (Vec1 20)) (VecN (Vec1 30) (Vec1 20)))
                  (VecN (VecN (Vec1 30) (Vec1 20)) (VecN (Vec1 30) (Vec1 (20 :: 8 word)))))
 \<and> \<not> length (to_vext (VecN (VecN (VecN (Vec1 30) (Vec1 20)) (VecN (Vec1 30) (Vec1 20)))
                  (VecN (VecN (Vec1 30) (Vec1 20)) (VecN (Vec1 30) (Vec1 (20 :: 8 word))))))
       \<le> length (to_vext (VecN (VecN (Vec1 10) (Vec1 20)) (VecN (Vec1 30) (Vec1 (40 :: 8 word)))))"
  by code_simp

text \<open>
  Claim C1 asks every operator to give the same lanes with and without the vector
  extensions. \<open>operator!\<close> does not. On the four 32-bit lanes 0, 1, 2, 3 the build with the
  vector extensions computes \<open>!to_vext(x)\<close>, which is \<open>v == 0\<close> lane by lane with all bits
  set where it holds, and returns 0xFFFFFFFF, 0, 0, 0; the portable overload returns the
  \<open>bool\<close> \<open>!x.val\<close> converted to \<open>T\<close>, which is 1, 0, 0, 0.
\<close>

theorem op_lnot_paths_differ:
  "op_lnot build_vext 4 (VecN (VecN (Vec1 0) (Vec1 1)) (VecN (Vec1 2) (Vec1 (3 :: 32 word))))
     = VecN (VecN (Vec1 0xFFFFFFFF) (Vec1 0)) (VecN (Vec1 0) (Vec1 0))
 \<and> op_lnot build_portable 4 (VecN (VecN (Vec1 0) (Vec1 1)) (VecN (Vec1 2) (Vec1 (3 :: 32 word))))
     = VecN (VecN (Vec1 1) (Vec1 0)) (VecN (Vec1 0) (Vec1 0))
 \<and> op_lnot build_vext 4 (VecN (VecN (Vec1 0) (Vec1 1)) (VecN (Vec1 2) (Vec1 (3 :: 32 word))))
     \<noteq> op_lnot build_portable 4 (VecN (VecN (Vec1 0) (Vec1 1)) (VecN (Vec1 2) (Vec1 (3 :: 32 word))))"
proof -
  let ?x = "VecN (VecN (Vec1 0) (Vec1 1)) (VecN (Vec1 2) (Vec1 (3 :: 32 word)))"
  have x: "is_Vec 4 ?x" by simp
  have v: "vext_available build_vext" and p: "\<not> vext_available build_portable"
    by (simp_all add: vext_available_def build_vext_def build_portable_def)
  show ?thesis
    by (simp add: op_lnot_vmap [OF x] v p)
qed

text \<open>
  The other seventeen operators are the same lane-wise map in every build, for lanes of
  an unsigned integer type of any width, any mask width and operands of one width; the
  quotient where no lane of the divisor is 0, the shifts for a count from 0 to the width
  of the lanes less one.
\<close>

lemma operators_agree_across_builds:
  fixes x y :: "'a::len word Vec"
  assumes "is_Vec N x" and "is_Vec N y"
  shows "op_add b N x y = op_add b' N x y" and "op_sub b N x y = op_sub b' N x y"
    and "op_mul b N x y = op_mul b' N x y"
    and "0 \<notin> set_Vec y \<Longrightarrow> op_div b N x y = op_div b' N x y"
    and "op_xor b N x y = op_xor b' N x y" and "op_and b N x y = op_and b' N x y"
    and "op_or b N x y = op_or b' N x y"
    and "op_neg b N x = op_neg b' N x" and "op_bnot b N x = op_bnot b' N x"
    and "0 \<le> bits \<Longrightarrow> bits < int LENGTH('a) \<Longrightarrow> op_shl b N x bits = op_shl b' N x bits"
    and "0 \<le> bits \<Longrightarrow> bits < int LENGTH('a) \<Longrightarrow> op_shr b N x bits = op_shr b' N x bits"
    and "(op_eq b N x y :: 'm::len word Vec) = op_eq b' N x y"
    and "(op_ne b N x y :: 'm word Vec) = op_ne b' N x y"
    and "(op_le b N x y :: 'm word Vec) = op_le b' N x y"
    and "(op_ge b N x y :: 'm word Vec) = op_ge b' N x y"
    and "(op_lt b N x y :: 'm word Vec) = op_lt b' N x y"
    and "(op_gt b N x y :: 'm word Vec) = op_gt b' N x y"
  using assms
  by (simp_all add: op_add_vmap2 op_sub_vmap2 op_mul_vmap2 op_div_vmap2 op_xor_vmap2 op_and_vmap2
      op_or_vmap2 op_neg_vmap op_bnot_vmap op_shl_vmap op_shr_vmap op_eq_vmap2 op_ne_vmap2
      op_le_vmap2 op_ge_vmap2 op_lt_vmap2 op_gt_vmap2)

end
